theory Spec2Isabelle
  imports Complex_Main "HOL-Library.Monad_Syntax"
begin

section \<open>Python primitives used by sync\_starship\_ghostty\_palette.py\<close>

text \<open>
  Conventions of the embedding.
  \<^item> A Python \<open>str\<close> is a \<open>string\<close>; a character is its code point (below 256).
  \<^item> A Python \<open>float\<close> is a \<open>real\<close>: the arithmetic of the source is read as exact
    real arithmetic, \<open>x ** y\<close> as \<open>x powr y\<close> (the bases that occur are never negative).
    This reading leaves out rounding, overflow and the values \<open>inf\<close> and \<open>nan\<close>. It gives the
    colours the source returns as long as the magnitudes stay ordinary: in
    \<open>scale_luminance\<close> a target so large that \<open>target_lum / current_lum\<close> overflows is
    outside it, and so is in \<open>boost_saturation_preserve_luminance\<close> a factor so large that
    it amplifies the rounding of the luminance to the size of a byte step. The statements
    about the boost are therefore made for factors up to \<open>2^21\<close>, with an allowance of
    \<open>10^-9\<close> on its real-valued intermediates that the rounded values meet as well.
  \<^item> A Python \<open>int\<close> is an \<open>int\<close>.
  \<^item> A raised exception (here always \<open>ValueError\<close>, from \<open>int(text, 16)\<close>) is the value
    \<open>None\<close>; a function that may raise returns an \<open>option\<close>.
\<close>

subsection \<open>\<open>round\<close>, \<open>str.strip\<close>, \<open>str.lstrip\<close>, \<open>str.lower\<close>\<close>

text \<open>Python 3 \<open>round(x)\<close> on a float: to the nearest integer, a tie to the even one.\<close>

definition py_round :: "real \<Rightarrow> int" where
  "py_round x =
     (let f = \<lfloor>x\<rfloor>; d = x - of_int f
      in if d < 1 / 2 then f
         else if 1 / 2 < d then f + 1
         else if even f then f else f + 1)"

text \<open>\<open>str.isspace\<close> on one character (code points below 256).\<close>

definition str_isspace :: "char \<Rightarrow> bool" where
  "str_isspace c = ((of_char c :: nat) \<in> set [9, 10, 11, 12, 13, 28, 29, 30, 31, 32, 133, 160])"

text \<open>The whitespace that \<open>int(text, base)\<close> skips.\<close>

definition int_isspace :: "char \<Rightarrow> bool" where
  "int_isspace c = ((of_char c :: nat) \<in> set [9, 10, 11, 12, 13, 32, 133, 160])"

definition strip :: "string \<Rightarrow> string" where
  "strip s = rev (dropWhile str_isspace (rev (dropWhile str_isspace s)))"

definition lstrip_hash :: "string \<Rightarrow> string" where
  "lstrip_hash s = dropWhile (\<lambda>c. c = CHR ''#'') s"

definition lower_char :: "char \<Rightarrow> char" where
  "lower_char c =
     (let n = (of_char c :: nat) in if 65 \<le> n \<and> n \<le> 90 then char_of (n + 32) else c)"

subsection \<open>\<open>int(text, 16)\<close> and the format \<open>{x:02x}\<close>\<close>

definition digit_value :: "char \<Rightarrow> nat option" where
  "digit_value c =
     (let n = (of_char c :: nat)
      in if 48 \<le> n \<and> n \<le> 57 then Some (n - 48)
         else if 97 \<le> n \<and> n \<le> 122 then Some (n - 87)
         else if 65 \<le> n \<and> n \<le> 90 then Some (n - 55)
         else None)"

definition hex_value :: "char \<Rightarrow> nat option" where
  "hex_value c = (case digit_value c of Some d \<Rightarrow> if d < 16 then Some d else None | None \<Rightarrow> None)"

text \<open>
  The digit loop of \<open>int(text, 16)\<close>: digits, single underscores between them allowed.
  The flag says that the previous character was an underscore; the result is the value read
  and the rest of the text.
\<close>

fun scan_digits :: "bool \<Rightarrow> nat \<Rightarrow> string \<Rightarrow> (nat \<times> string) option" where
  "scan_digits prev acc [] = (if prev then None else Some (acc, []))"
| "scan_digits prev acc (c # cs) =
     (if c = CHR ''_'' then (if prev then None else scan_digits True acc cs)
      else (case hex_value c of
              Some d \<Rightarrow> scan_digits False (16 * acc + d) cs
            | None \<Rightarrow> if prev then None else Some (acc, c # cs)))"

definition py_int16 :: "string \<Rightarrow> int option" where
  "py_int16 s =
     (let s1 = dropWhile int_isspace s;
          neg = (s1 \<noteq> [] \<and> hd s1 = CHR ''-'');
          s2 = (if s1 \<noteq> [] \<and> (hd s1 = CHR ''+'' \<or> hd s1 = CHR ''-'') then tl s1 else s1);
          s3 = (case s2 of
                  z # x # r \<Rightarrow>
                    if z = CHR ''0'' \<and> (x = CHR ''x'' \<or> x = CHR ''X'')
                    then (case r of u # r' \<Rightarrow> if u = CHR ''_'' then r' else r | [] \<Rightarrow> r)
                    else s2
                | _ \<Rightarrow> s2)
      in if s3 \<noteq> [] \<and> hd s3 = CHR ''_'' then None
         else (case scan_digits False 0 s3 of
                 None \<Rightarrow> None
               | Some (v, rest) \<Rightarrow>
                   if length rest = length s3 then None
                   else if dropWhile int_isspace rest \<noteq> [] then None
                   else Some (if neg then - int v else int v)))"

definition hex_char :: "nat \<Rightarrow> char" where
  "hex_char d = (if d < 10 then char_of (48 + d) else char_of (87 + d))"

fun hex_digits :: "nat \<Rightarrow> string" where
  "hex_digits n = (if n < 16 then [hex_char n] else hex_digits (n div 16) @ [hex_char (n mod 16)])"

text \<open>\<open>f"{x:02x}"\<close>: lower-case hexadecimal, the sign first, zero-padded to width two.\<close>

definition format_02x :: "int \<Rightarrow> string" where
  "format_02x x =
     (if x < 0 then CHR ''-'' # hex_digits (nat (- x))
      else let d = hex_digits (nat x) in if length d < 2 then CHR ''0'' # d else d)"

section \<open>The colour functions\<close>

text \<open>\<open>HEX_RE = ^#([0-9a-fA-F]{6})$\<close> on a stripped text.\<close>

definition is_hex_digit :: "char \<Rightarrow> bool" where
  "is_hex_digit c = (hex_value c \<noteq> None)"

definition HEX_RE_match :: "string \<Rightarrow> string option" where
  "HEX_RE_match s =
     (case s of
        h # ds \<Rightarrow> if h = CHR ''#'' \<and> length ds = 6 \<and> list_all is_hex_digit ds then Some ds else None
      | [] \<Rightarrow> None)"

definition normalize_hex :: "string \<Rightarrow> string option" where
  "normalize_hex v =
     (case HEX_RE_match (strip v) of
        None \<Rightarrow> None
      | Some ds \<Rightarrow> Some (CHR ''#'' # map lower_char ds))"

definition hex_to_rgb :: "string \<Rightarrow> (int \<times> int \<times> int) option" where
  "hex_to_rgb v =
     (let raw = lstrip_hash v in
      do {
        r \<leftarrow> py_int16 (take 2 raw);
        g \<leftarrow> py_int16 (take 2 (drop 2 raw));
        b \<leftarrow> py_int16 (take 2 (drop 4 raw));
        Some (r, g, b)
      })"

definition rgb_to_hex :: "int \<times> int \<times> int \<Rightarrow> string" where
  "rgb_to_hex rgb =
     (case rgb of (r, g, b) \<Rightarrow> CHR ''#'' # format_02x r @ format_02x g @ format_02x b)"

definition blend :: "string \<Rightarrow> string \<Rightarrow> real \<Rightarrow> string option" where
  "blend a b amount =
     do {
       (ar, ag, ab) \<leftarrow> hex_to_rgb a;
       (br, bg, bb) \<leftarrow> hex_to_rgb b;
       let r = py_round (of_int ar + of_int (br - ar) * amount);
       let g = py_round (of_int ag + of_int (bg - ag) * amount);
       let b_out = py_round (of_int ab + of_int (bb - ab) * amount);
       Some (rgb_to_hex (r, g, b_out))
     }"

definition channel_to_linear :: "int \<Rightarrow> real" where
  "channel_to_linear channel =
     (let v = of_int channel / 255
      in if v \<le> 0.04045 then v / 12.92 else ((v + 0.055) / 1.055) powr 2.4)"

definition linear_to_channel :: "real \<Rightarrow> int" where
  "linear_to_channel value0 =
     (let v = max 0 (min 1 value0);
          srgb = (if v \<le> 0.0031308 then v * 12.92 else 1.055 * (v powr (1 / 2.4)) - 0.055)
      in py_round (srgb * 255))"

definition luminance_of :: "real \<Rightarrow> real \<Rightarrow> real \<Rightarrow> real" where
  "luminance_of rl gl bl = 0.2126 * rl + 0.7152 * gl + 0.0722 * bl"

definition relative_luminance :: "string \<Rightarrow> real option" where
  "relative_luminance color =
     do {
       (r, g, b) \<leftarrow> hex_to_rgb color;
       let rl = channel_to_linear r;
       let gl = channel_to_linear g;
       let bl = channel_to_linear b;
       Some (luminance_of rl gl bl)
     }"

definition contrast_ratio :: "string \<Rightarrow> string \<Rightarrow> real option" where
  "contrast_ratio a b =
     do {
       la \<leftarrow> relative_luminance a;
       lb \<leftarrow> relative_luminance b;
       let lighter = max la lb;
       let darker = min la lb;
       Some ((lighter + 0.05) / (darker + 0.05))
     }"

text \<open>
  \<open>max(items, key=...)\<close> on a non-empty list of items paired with their keys: the first item
  whose key is the largest (a later item replaces the running best only when its key is
  strictly greater).
\<close>

fun max_first :: "('a \<times> real) \<Rightarrow> ('a \<times> real) list \<Rightarrow> 'a" where
  "max_first best [] = fst best"
| "max_first best (x # xs) = (if snd best < snd x then max_first x xs else max_first best xs)"

fun unique_candidates :: "string list \<Rightarrow> string list \<Rightarrow> string list" where
  "unique_candidates acc [] = acc"
| "unique_candidates acc (color # rest) =
     (case normalize_hex color of
        Some normalized \<Rightarrow>
          if normalized \<notin> set acc then unique_candidates (acc @ [normalized]) rest
          else unique_candidates acc rest
      | None \<Rightarrow> unique_candidates acc rest)"

definition best_contrast_text :: "string \<Rightarrow> string list \<Rightarrow> string option" where
  "best_contrast_text background candidates =
     (let uniq = unique_candidates [] candidates
      in if uniq = [] then Some ''#ffffff''
         else do {
           keys \<leftarrow> those (map (contrast_ratio background) uniq);
           let pairs = zip uniq keys;
           Some (max_first (hd pairs) (tl pairs))
         })"

text \<open>The inner function \<open>transform\<close> of \<open>boost_saturation_preserve_luminance\<close>.\<close>

definition transform :: "real \<Rightarrow> real \<Rightarrow> real \<Rightarrow> real \<Rightarrow> real \<Rightarrow> real \<times> real \<times> real" where
  "transform r g b y k = (y + (r - y) * k, y + (g - y) * k, y + (b - y) * k)"

text \<open>
  The loop \<open>for _ in range(20)\<close>, its state the pair \<open>(low, high)\<close>. Read over the reals;
  the source computes it in floats, and the two give the same colour for factors up to about
  \<open>10^13\<close> (beyond, the rounding of \<open>y\<close> times \<open>k\<close> reaches the size of a byte step).
\<close>

fun boost_search :: "real \<Rightarrow> real \<Rightarrow> real \<Rightarrow> real \<Rightarrow> nat \<Rightarrow> real \<times> real \<Rightarrow> real \<times> real" where
  "boost_search r g b y 0 (low, high) = (low, high)"
| "boost_search r g b y (Suc n) (low, high) =
     (let mid = (low + high) / 2
      in case transform r g b y mid of
           (tr, tg, tb) \<Rightarrow>
             if 0 \<le> tr \<and> tr \<le> 1 \<and> 0 \<le> tg \<and> tg \<le> 1 \<and> 0 \<le> tb \<and> tb \<le> 1
             then boost_search r g b y n (mid, high)
             else boost_search r g b y n (low, mid))"

definition boost_saturation_preserve_luminance :: "string \<Rightarrow> real \<Rightarrow> string option" where
  "boost_saturation_preserve_luminance color factor =
     (if factor \<le> 1 then Some color
      else do {
        (r8, g8, b8) \<leftarrow> hex_to_rgb color;
        let r = channel_to_linear r8;
        let g = channel_to_linear g8;
        let b = channel_to_linear b8;
        let y = luminance_of r g b;
        let low = fst (boost_search r g b y 20 (1, factor));
        Some (case transform r g b y low of
                (out_r, out_g, out_b) \<Rightarrow>
                  rgb_to_hex (linear_to_channel out_r, linear_to_channel out_g,
                              linear_to_channel out_b))
      })"

text \<open>
  Lines 138 to 149 of \<open>scale_luminance\<close>: the scaled linear channels, before they are
  encoded to bytes. Read over the reals; in the source the division overflows to \<open>inf\<close>
  for targets from about \<open>10^306\<close>, which this reading does not follow (the bytes that
  \<open>linear_to_channel\<close> then produces are still bytes, but other ones).
\<close>

definition scale_linear :: "real \<Rightarrow> real \<Rightarrow> real \<Rightarrow> real \<Rightarrow> real \<Rightarrow> real \<times> real \<times> real" where
  "scale_linear rl gl bl current_lum target_lum =
     (let factor = target_lum / current_lum;
          new_r = rl * factor;
          new_g = gl * factor;
          new_b = bl * factor;
          max_val = max (max new_r new_g) new_b
      in if 1 < max_val
         then (let factor' = factor / max_val in (rl * factor', gl * factor', bl * factor'))
         else (new_r, new_g, new_b))"

definition scale_luminance :: "string \<Rightarrow> real \<Rightarrow> string option" where
  "scale_luminance color target_lum =
     do {
       (r, g, b) \<leftarrow> hex_to_rgb color;
       let rl = channel_to_linear r;
       let gl = channel_to_linear g;
       let bl = channel_to_linear b;
       let current_lum = luminance_of rl gl bl;
       if current_lum < 0.001 then Some color
       else (case scale_linear rl gl bl current_lum target_lum of
               (new_r, new_g, new_b) \<Rightarrow>
                 Some (rgb_to_hex (linear_to_channel new_r, linear_to_channel new_g,
                                   linear_to_channel new_b)))
     }"

section \<open>The palette deriver\<close>

definition DARK_BACKGROUND_LUMINANCE_THRESHOLD :: real where
  "DARK_BACKGROUND_LUMINANCE_THRESHOLD = 0.26"

definition DARK_THEME_SATURATION_BOOST :: real where
  "DARK_THEME_SATURATION_BOOST = 1.35"

definition DARK_ACCENT_MAX_LUMINANCE :: real where
  "DARK_ACCENT_MAX_LUMINANCE = 0.55"

definition DARK_ACCENT_MIN_CONTRAST :: real where
  "DARK_ACCENT_MIN_CONTRAST = 3.5"

text \<open>
  The dictionary that \<open>load_ghostty_config\<close> returns: the indexed palette and the three
  optional named colours.
\<close>

record parsed_config =
  cfg_palette :: "int \<Rightarrow> string option"
  cfg_foreground :: "string option"
  cfg_background :: "string option"
  cfg_selection_background :: "string option"

record accents =
  red :: string
  green :: string
  yellow :: string
  blue :: string
  purple :: string
  aqua :: string
  orange :: string

record inputs =
  in_foreground :: string
  in_background :: string
  in_selection_background :: string
  in_accents :: accents

text \<open>\<open>x or y\<close> where \<open>x\<close> is \<open>None\<close> or a text: \<open>None\<close> and the empty text are false.\<close>

definition py_or :: "string option \<Rightarrow> string \<Rightarrow> string" where
  "py_or x y = (case x of None \<Rightarrow> y | Some s \<Rightarrow> if s = [] then y else s)"

text \<open>Lines 200 to 216 of \<open>build_starship_palette\<close>: the colours before any correction.\<close>

definition palette_inputs :: "parsed_config \<Rightarrow> inputs option" where
  "palette_inputs parsed =
     (let colors = cfg_palette parsed;
          foreground = py_or (cfg_foreground parsed) (py_or (colors 7) ''#fbf1c7'');
          background = py_or (cfg_background parsed) (py_or (colors 0) ''#3c3836'')
      in do {
        selection_background \<leftarrow>
          (case py_or (cfg_selection_background parsed) (py_or (colors 8) []) of
             [] \<Rightarrow> blend background foreground 0.25
           | c # cs \<Rightarrow> Some (c # cs));
        let red0 = py_or (colors 1) ''#cc241d'';
        let green0 = py_or (colors 2) ''#98971a'';
        let yellow0 = py_or (colors 3) ''#d79921'';
        let blue0 = py_or (colors 4) ''#458588'';
        let purple0 = py_or (colors 5) ''#b16286'';
        let aqua0 = py_or (colors 6) ''#689d6a'';
        orange0 \<leftarrow> blend red0 yellow0 0.5;
        Some \<lparr>in_foreground = foreground, in_background = background,
              in_selection_background = selection_background,
              in_accents = \<lparr>red = red0, green = green0, yellow = yellow0, blue = blue0,
                            purple = purple0, aqua = aqua0, orange = orange0\<rparr>\<rparr>
      })"

text \<open>The inner functions \<open>_clamp_lum\<close> and \<open>_ensure_contrast\<close>.\<close>

definition clamp_lum :: "string \<Rightarrow> string option" where
  "clamp_lum c =
     do {
       l \<leftarrow> relative_luminance c;
       if DARK_ACCENT_MAX_LUMINANCE < l then scale_luminance c DARK_ACCENT_MAX_LUMINANCE
       else Some c
     }"

definition ensure_contrast :: "string \<Rightarrow> real \<Rightarrow> string \<Rightarrow> string option" where
  "ensure_contrast background bg_lum c =
     do {
       cr \<leftarrow> contrast_ratio c background;
       if cr < DARK_ACCENT_MIN_CONTRAST
       then (let target_lum = DARK_ACCENT_MIN_CONTRAST * (bg_lum + 0.05) - 0.05;
                 target_lum = max target_lum 0.15
             in scale_luminance c target_lum)
       else Some c
     }"

text \<open>Lines 218 to 263: the dark-theme corrections of the seven accents.\<close>

definition dark_theme_corrections :: "string \<Rightarrow> accents \<Rightarrow> accents option" where
  "dark_theme_corrections background a =
     do {
       l \<leftarrow> relative_luminance background;
       if l < DARK_BACKGROUND_LUMINANCE_THRESHOLD
       then do {
         red1 \<leftarrow> boost_saturation_preserve_luminance (red a) DARK_THEME_SATURATION_BOOST;
         green1 \<leftarrow> boost_saturation_preserve_luminance (green a) DARK_THEME_SATURATION_BOOST;
         yellow1 \<leftarrow> boost_saturation_preserve_luminance (yellow a) DARK_THEME_SATURATION_BOOST;
         blue1 \<leftarrow> boost_saturation_preserve_luminance (blue a) DARK_THEME_SATURATION_BOOST;
         purple1 \<leftarrow> boost_saturation_preserve_luminance (purple a) DARK_THEME_SATURATION_BOOST;
         aqua1 \<leftarrow> boost_saturation_preserve_luminance (aqua a) DARK_THEME_SATURATION_BOOST;
         orange1 \<leftarrow> boost_saturation_preserve_luminance (orange a) DARK_THEME_SATURATION_BOOST;
         red2 \<leftarrow> clamp_lum red1;
         green2 \<leftarrow> clamp_lum green1;
         yellow2 \<leftarrow> clamp_lum yellow1;
         blue2 \<leftarrow> clamp_lum blue1;
         purple2 \<leftarrow> clamp_lum purple1;
         aqua2 \<leftarrow> clamp_lum aqua1;
         orange2 \<leftarrow> clamp_lum orange1;
         bg_lum \<leftarrow> relative_luminance background;
         red3 \<leftarrow> ensure_contrast background bg_lum red2;
         green3 \<leftarrow> ensure_contrast background bg_lum green2;
         yellow3 \<leftarrow> ensure_contrast background bg_lum yellow2;
         blue3 \<leftarrow> ensure_contrast background bg_lum blue2;
         purple3 \<leftarrow> ensure_contrast background bg_lum purple2;
         aqua3 \<leftarrow> ensure_contrast background bg_lum aqua2;
         orange3 \<leftarrow> ensure_contrast background bg_lum orange2;
         Some \<lparr>red = red3, green = green3, yellow = yellow3, blue = blue3,
               purple = purple3, aqua = aqua3, orange = orange3\<rparr>
       }
       else Some a
     }"

text \<open>Lines 265 to 297: the text colours and the returned dictionary, in its order.\<close>

definition palette_output :: "inputs \<Rightarrow> accents \<Rightarrow> (string \<times> string) list option" where
  "palette_output i a =
     (let foreground = in_foreground i;
          background = in_background i;
          selection_background = in_selection_background i;
          contrast_candidates = [foreground, background, ''#ffffff'', ''#000000'']
      in do {
        on_bg1 \<leftarrow> best_contrast_text background contrast_candidates;
        on_bg3 \<leftarrow> best_contrast_text selection_background contrast_candidates;
        on_blue \<leftarrow> best_contrast_text (blue a) contrast_candidates;
        on_aqua \<leftarrow> best_contrast_text (aqua a) contrast_candidates;
        on_green \<leftarrow> best_contrast_text (green a) contrast_candidates;
        on_orange \<leftarrow> best_contrast_text (orange a) contrast_candidates;
        on_purple \<leftarrow> best_contrast_text (purple a) contrast_candidates;
        on_red \<leftarrow> best_contrast_text (red a) contrast_candidates;
        on_yellow \<leftarrow> best_contrast_text (yellow a) contrast_candidates;
        Some [(''color_fg0'', foreground),
              (''color_bg1'', background),
              (''color_bg3'', selection_background),
              (''color_on_bg1'', on_bg1),
              (''color_on_bg3'', on_bg3),
              (''color_on_blue'', on_blue),
              (''color_on_aqua'', on_aqua),
              (''color_on_green'', on_green),
              (''color_on_orange'', on_orange),
              (''color_on_purple'', on_purple),
              (''color_on_red'', on_red),
              (''color_on_yellow'', on_yellow),
              (''color_blue'', blue a),
              (''color_aqua'', aqua a),
              (''color_green'', green a),
              (''color_orange'', orange a),
              (''color_purple'', purple a),
              (''color_red'', red a),
              (''color_yellow'', yellow a)]
      })"

definition build_starship_palette :: "parsed_config \<Rightarrow> (string \<times> string) list option" where
  "build_starship_palette parsed =
     do {
       i \<leftarrow> palette_inputs parsed;
       a \<leftarrow> dark_theme_corrections (in_background i) (in_accents i);
       palette_output i a
     }"

section \<open>Canonical colours\<close>

text \<open>
  A canonical colour is the text \<open>#rrggbb\<close> with six lower-case hexadecimal digits; a byte is
  an integer from 0 to 255.
\<close>

definition lower_hex :: "char \<Rightarrow> bool" where
  "lower_hex c = (let n = (of_char c :: nat) in (48 \<le> n \<and> n \<le> 57) \<or> (97 \<le> n \<and> n \<le> 102))"

definition canonical :: "string \<Rightarrow> bool" where
  "canonical s =
     (case s of h # ds \<Rightarrow> h = CHR ''#'' \<and> length ds = 6 \<and> list_all lower_hex ds | [] \<Rightarrow> False)"

definition byte :: "int \<Rightarrow> bool" where
  "byte n = (0 \<le> n \<and> n \<le> 255)"

definition in_gamut :: "real \<Rightarrow> real \<Rightarrow> real \<Rightarrow> real \<Rightarrow> real \<Rightarrow> bool" where
  "in_gamut r g b y k =
     (case transform r g b y k of
        (tr, tg, tb) \<Rightarrow> 0 \<le> tr \<and> tr \<le> 1 \<and> 0 \<le> tg \<and> tg \<le> 1 \<and> 0 \<le> tb \<and> tb \<le> 1)"

definition first_occurrences :: "'a list \<Rightarrow> 'a list" where
  "first_occurrences xs = rev (remdups (rev xs))"

definition normalized_candidates :: "string list \<Rightarrow> string list" where
  "normalized_candidates candidates = List.map_filter normalize_hex candidates"

definition contrast_of :: "string \<Rightarrow> string \<Rightarrow> real" where
  "contrast_of a b = (case contrast_ratio a b of Some x \<Rightarrow> x | None \<Rightarrow> 0)"

text \<open>
  What \<open>load_ghostty_config\<close> guarantees of the dictionary it returns: every colour it
  stores went through \<open>normalize_hex\<close>.
\<close>

definition valid_parsed :: "parsed_config \<Rightarrow> bool" where
  "valid_parsed parsed =
     ((\<forall>v \<in> ran (cfg_palette parsed). canonical v)
      \<and> (\<forall>v \<in> set_option (cfg_foreground parsed). canonical v)
      \<and> (\<forall>v \<in> set_option (cfg_background parsed). canonical v)
      \<and> (\<forall>v \<in> set_option (cfg_selection_background parsed). canonical v))"

definition canonical_accents :: "accents \<Rightarrow> bool" where
  "canonical_accents a =
     (canonical (red a) \<and> canonical (green a) \<and> canonical (yellow a) \<and> canonical (blue a)
      \<and> canonical (purple a) \<and> canonical (aqua a) \<and> canonical (orange a))"

text \<open>The three corrections of one accent, in their order: boost, clamp, contrast.\<close>

definition correct_accent :: "string \<Rightarrow> real \<Rightarrow> string \<Rightarrow> string option" where
  "correct_accent background bg_lum c =
     do {
       c1 \<leftarrow> boost_saturation_preserve_luminance c DARK_THEME_SATURATION_BOOST;
       c2 \<leftarrow> clamp_lum c1;
       ensure_contrast background bg_lum c2
     }"

text \<open>Reading one key of the returned dictionary (\<open>None\<close> when the deriver raised).\<close>

definition palette_slot :: "(string \<times> string) list option \<Rightarrow> string \<Rightarrow> string option" where
  "palette_slot result key = (case result of None \<Rightarrow> None | Some m \<Rightarrow> map_of m key)"

text \<open>The nineteen keys of the returned dictionary, in its order.\<close>

definition slot_names :: "string list" where
  "slot_names = [''color_fg0'', ''color_bg1'', ''color_bg3'', ''color_on_bg1'',
     ''color_on_bg3'', ''color_on_blue'', ''color_on_aqua'', ''color_on_green'',
     ''color_on_orange'', ''color_on_purple'', ''color_on_red'', ''color_on_yellow'',
     ''color_blue'', ''color_aqua'', ''color_green'', ''color_orange'', ''color_purple'',
     ''color_red'', ''color_yellow'']"

text \<open>
  The dictionary \<open>m\<close> has the nineteen keys, canonical values, and carries the three
  surface colours of \<open>i\<close> and the seven accents \<open>a\<close>.
\<close>

definition output_of :: "inputs \<Rightarrow> accents \<Rightarrow> (string \<times> string) list \<Rightarrow> bool" where
  "output_of i a m =
     (map fst m = slot_names
      \<and> (\<forall>v \<in> set (map snd m). canonical v)
      \<and> map_of m ''color_fg0'' = Some (in_foreground i)
      \<and> map_of m ''color_bg1'' = Some (in_background i)
      \<and> map_of m ''color_bg3'' = Some (in_selection_background i)
      \<and> map_of m ''color_red'' = Some (red a)
      \<and> map_of m ''color_green'' = Some (green a)
      \<and> map_of m ''color_yellow'' = Some (yellow a)
      \<and> map_of m ''color_blue'' = Some (blue a)
      \<and> map_of m ''color_purple'' = Some (purple a)
      \<and> map_of m ''color_aqua'' = Some (aqua a)
      \<and> map_of m ''color_orange'' = Some (orange a))"

section \<open>Texts and bytes\<close>

lemma hex_value_hex_char: "d < 16 \<Longrightarrow> hex_value (hex_char d) = Some d"
  by (simp add: hex_value_def digit_value_def hex_char_def)

lemma lower_hex_hex_char: "d < 16 \<Longrightarrow> lower_hex (hex_char d)"
  by (simp add: lower_hex_def hex_char_def)

lemma lower_hex_cases:
  assumes "lower_hex c"
  shows "\<exists>d<16. c = hex_char d"
proof (cases "(of_char c :: nat) \<le> 57")
  case True
  with assms have "(of_char c :: nat) - 48 < 16" "c = hex_char (of_char c - 48)"
    by (auto simp: lower_hex_def hex_char_def Let_def)
  then show ?thesis by blast
next
  case False
  with assms have "(of_char c :: nat) - 87 < 16" "c = hex_char (of_char c - 87)"
    by (auto simp: lower_hex_def hex_char_def Let_def)
  then show ?thesis by blast
qed

lemma hex_value_not_special:
  assumes "hex_value c = Some d"
  shows "c \<noteq> CHR ''_''" "c \<noteq> CHR ''+''" "c \<noteq> CHR ''-''" "c \<noteq> CHR ''x''" "c \<noteq> CHR ''X''"
    "c \<noteq> CHR ''#''" "\<not> int_isspace c" "\<not> str_isspace c"
  using assms
  by (auto simp: hex_value_def digit_value_def int_isspace_def str_isspace_def Let_def split: if_splits)

lemma py_int16_two:
  assumes "hex_value a = Some x" "hex_value b = Some y"
  shows "py_int16 [a, b] = Some (int (16 * x + y))"
  using assms hex_value_not_special[OF assms(1)] hex_value_not_special[OF assms(2)]
  by (simp add: py_int16_def)

lemma hex_char_0: "hex_char 0 = CHR ''0''"
proof -
  have "(of_char (hex_char 0) :: nat) = of_char CHR ''0''" by (simp add: hex_char_def)
  then show ?thesis by (simp only: of_char_eq_iff)
qed

lemma format_02x_byte:
  assumes "byte n"
  shows "format_02x n = [hex_char (nat n div 16), hex_char (nat n mod 16)]"
proof -
  have "nat n < 256" using assms by (auto simp add: byte_def)
  then have "nat n div 16 < 16" by simp
  then show ?thesis using assms
    by (simp add: format_02x_def byte_def Let_def hex_char_0)
qed

lemma py_int16_format:
  assumes "byte n"
  shows "py_int16 (format_02x n) = Some n"
proof -
  have lt: "nat n < 256" using assms by (auto simp add: byte_def)
  then have d: "nat n div 16 < 16" by simp
  have m: "nat n mod 16 < 16" by simp
  have "int (16 * (nat n div 16) + nat n mod 16) = n"
    using assms by (simp add: byte_def)
  then show ?thesis
    using py_int16_two[OF hex_value_hex_char[OF d] hex_value_hex_char[OF m]]
    by (simp add: format_02x_byte[OF assms])
qed

lemma canonical_rgb_to_hex:
  assumes "byte r" "byte g" "byte b"
  shows "canonical (rgb_to_hex (r, g, b))"
proof -
  have "nat r < 256" "nat g < 256" "nat b < 256"
    using assms by (auto simp add: byte_def)
  then have "nat r div 16 < 16" "nat g div 16 < 16" "nat b div 16 < 16" by simp_all
  then show ?thesis
    by (simp add: rgb_to_hex_def format_02x_byte[OF assms(1)] format_02x_byte[OF assms(2)]
        format_02x_byte[OF assms(3)] canonical_def lower_hex_hex_char)
qed

lemma hex_to_rgb_rgb_to_hex:
  assumes "byte r" "byte g" "byte b"
  shows "hex_to_rgb (rgb_to_hex (r, g, b)) = Some (r, g, b)"
proof -
  have lt: "nat r div 16 < 16" using assms by (auto simp add: byte_def)
  have raw: "lstrip_hash (rgb_to_hex (r, g, b)) = format_02x r @ format_02x g @ format_02x b"
    using hex_value_not_special(6)[OF hex_value_hex_char[OF lt]] assms
    by (simp add: rgb_to_hex_def lstrip_hash_def format_02x_byte)
  have l: "length (format_02x r) = 2" "length (format_02x g) = 2" "length (format_02x b) = 2"
    using assms by (simp_all add: format_02x_byte)
  show ?thesis
    unfolding hex_to_rgb_def raw Let_def
    using l by (simp add: py_int16_format assms)
qed

lemma canonical_decompose:
  assumes "canonical c"
  shows "\<exists>r g b. byte r \<and> byte g \<and> byte b \<and> c = rgb_to_hex (r, g, b)"
proof -
  from assms obtain c1 c2 c3 c4 c5 c6 where c: "c = [CHR ''#'', c1, c2, c3, c4, c5, c6]"
    and l: "lower_hex c1" "lower_hex c2" "lower_hex c3" "lower_hex c4" "lower_hex c5" "lower_hex c6"
    by (auto simp: canonical_def length_Suc_conv eval_nat_numeral split: list.splits)
  have two: "\<exists>n. byte n \<and> format_02x n = [a, b]" if "lower_hex a" "lower_hex b" for a b
  proof -
    from that obtain x y where xy: "x < 16" "y < 16" "a = hex_char x" "b = hex_char y"
      using lower_hex_cases by blast
    let ?n = "int (16 * x + y)"
    have "byte ?n" using xy by (simp add: byte_def)
    moreover have n: "nat ?n = 16 * x + y" by (simp only: nat_int)
    have "nat ?n div 16 = x" "nat ?n mod 16 = y" unfolding n using xy by simp_all
    ultimately show ?thesis using format_02x_byte[of ?n] xy by metis
  qed
  from two[OF l(1,2)] two[OF l(3,4)] two[OF l(5,6)]
  obtain r g b where "byte r" "format_02x r = [c1, c2]" "byte g" "format_02x g = [c3, c4]"
    "byte b" "format_02x b = [c5, c6]" by blast
  then have "byte r \<and> byte g \<and> byte b \<and> c = rgb_to_hex (r, g, b)"
    using c by (simp add: rgb_to_hex_def)
  then show ?thesis by blast
qed

section \<open>Normalisation, rounding and powers\<close>

lemma strip_id:
  assumes "s \<noteq> []" "\<not> str_isspace (hd s)" "\<not> str_isspace (last s)"
  shows "strip s = s"
proof -
  from assms(1,2) have 1: "dropWhile str_isspace s = s" by (cases s) auto
  from assms(1,3) have "dropWhile str_isspace (rev s) = rev s"
    by (cases "rev s") (auto simp: last_rev[symmetric] hd_rev simp del: last_rev)
  with 1 show ?thesis by (simp add: strip_def)
qed

lemma lower_hex_props:
  assumes "lower_hex c"
  shows "is_hex_digit c" "lower_char c = c" "\<not> str_isspace c"
  using assms
  by (auto simp: lower_hex_def is_hex_digit_def hex_value_def digit_value_def lower_char_def
      str_isspace_def Let_def)

lemma normalize_hex_canonical:
  assumes "canonical c"
  shows "normalize_hex c = Some c"
proof -
  from assms obtain ds where c: "c = CHR ''#'' # ds" and l: "length ds = 6"
    and h: "list_all lower_hex ds"
    by (auto simp: canonical_def split: list.splits)
  from l have ne: "ds \<noteq> []" by auto
  from h ne have "lower_hex (last ds)" by (simp add: list_all_iff)
  then have "\<not> str_isspace (last c)" using c ne lower_hex_props(3) by simp
  moreover have "\<not> str_isspace (hd c)" using c by (simp add: str_isspace_def)
  ultimately have s: "strip c = c" using c by (intro strip_id) auto
  have m: "map lower_char ds = ds" using h lower_hex_props(2)
    by (induction ds) auto
  have "list_all is_hex_digit ds" using h lower_hex_props(1) by (simp add: list_all_iff)
  then show ?thesis using c l m s by (simp add: normalize_hex_def HEX_RE_match_def)
qed

lemma lower_char_hex:
  assumes "is_hex_digit c"
  shows "lower_hex (lower_char c)"
  using assms
  by (auto simp: lower_hex_def is_hex_digit_def hex_value_def digit_value_def lower_char_def
      Let_def split: if_splits)

lemma canonical_normalize_hex:
  assumes "normalize_hex v = Some c"
  shows "canonical c"
  using assms lower_char_hex
  by (auto simp: normalize_hex_def HEX_RE_match_def canonical_def list_all_iff
      split: option.splits list.splits if_splits)

lemma py_round_of_int: "py_round (of_int n) = n"
  by (simp add: py_round_def)

lemma py_round_bounds: "x - 1 / 2 \<le> of_int (py_round x)" "of_int (py_round x) \<le> x + 1 / 2"
  by (auto simp: py_round_def Let_def) linarith+

lemma py_round_range:
  assumes "of_int lo \<le> x" "x \<le> of_int hi"
  shows "lo \<le> py_round x" "py_round x \<le> hi"
proof -
  have "lo \<le> \<lfloor>x\<rfloor>" using assms(1) by (simp add: le_floor_iff)
  then show "lo \<le> py_round x" by (auto simp: py_round_def Let_def)
  show "py_round x \<le> hi"
  proof (cases "x = of_int hi")
    case True
    then show ?thesis by (simp add: py_round_of_int)
  next
    case False
    with assms(2) have "x < of_int hi" by simp
    then have "\<lfloor>x\<rfloor> < hi" by (simp add: floor_less_iff)
    then show ?thesis by (auto simp: py_round_def Let_def)
  qed
qed

lemma py_round_unique:
  assumes "of_int n - 1 / 2 < x" "x < of_int n + 1 / 2"
  shows "py_round x = n"
proof -
  have "\<lfloor>x\<rfloor> = n \<or> \<lfloor>x\<rfloor> = n - 1" using assms by linarith
  then show ?thesis
  proof
    assume f: "\<lfloor>x\<rfloor> = n"
    then have "x - of_int n < 1 / 2" using assms by linarith
    with f show ?thesis by (simp add: py_round_def Let_def)
  next
    assume f: "\<lfloor>x\<rfloor> = n - 1"
    then have "1 / 2 < x - of_int (n - 1)" using assms by simp
    with f show ?thesis by (simp add: py_round_def Let_def)
  qed
qed

lemma powr_24_pow5:
  assumes "0 < (x::real)"
  shows "(x powr 2.4) ^ 5 = x ^ 12"
proof -
  have p: "0 < x powr 2.4" using assms by simp
  have "(x powr 2.4) ^ 5 = (x powr 2.4) powr (real 5)"
    by (rule powr_realpow[OF p, symmetric])
  also have "\<dots> = x powr (real 12)" using assms by (simp add: powr_powr)
  also have "\<dots> = x ^ 12" by (rule powr_realpow[OF assms])
  finally show ?thesis .
qed

lemma powr_inv24_pow12:
  assumes "0 < (x::real)"
  shows "(x powr (1 / 2.4)) ^ 12 = x ^ 5"
proof -
  have p: "0 < x powr (1 / 2.4)" using assms by simp
  have "(x powr (1 / 2.4)) ^ 12 = (x powr (1 / 2.4)) powr (real 12)"
    by (rule powr_realpow[OF p, symmetric])
  also have "\<dots> = x powr (real 5)" using assms by (simp add: powr_powr)
  also have "\<dots> = x ^ 5" by (rule powr_realpow[OF assms])
  finally show ?thesis .
qed

section \<open>The transfer functions\<close>

lemma channel_to_linear_low:
  assumes "n \<le> 10"
  shows "channel_to_linear n = of_int n / 255 / 12.92"
proof -
  have "(of_int n :: real) \<le> 10" using assms by simp
  then have "(of_int n :: real) / 255 \<le> 0.04045" by simp
  then show ?thesis by (simp add: channel_to_linear_def Let_def)
qed

lemma channel_to_linear_high:
  assumes "11 \<le> n"
  shows "channel_to_linear n = ((of_int n / 255 + 0.055) / 1.055) powr 2.4"
proof -
  have "(11::real) \<le> of_int n" using assms by simp
  then have "\<not> (of_int n :: real) / 255 \<le> 0.04045" by simp
  then show ?thesis by (simp add: channel_to_linear_def Let_def)
qed

lemma channel_to_linear_range:
  assumes "byte n"
  shows "0 \<le> channel_to_linear n" "channel_to_linear n \<le> 1"
proof -
  have n: "0 \<le> (of_int n :: real)" "(of_int n :: real) \<le> 255"
    using assms by (simp_all add: byte_def)
  show "0 \<le> channel_to_linear n"
    using n by (simp add: channel_to_linear_def Let_def)
  show "channel_to_linear n \<le> 1"
  proof (cases "n \<le> 10")
    case True
    then show ?thesis using n by (simp add: channel_to_linear_low)
  next
    case False
    then have h: "11 \<le> n" by simp
    have "(of_int n / 255 + 0.055) / 1.055 \<le> (1::real)" using n by simp
    moreover have "0 \<le> (of_int n / 255 + 0.055) / (1.055::real)" using n by simp
    ultimately have "((of_int n / 255 + 0.055) / 1.055) powr 2.4 \<le> (1::real)"
      by (intro powr_le1) simp_all
    then show ?thesis by (simp add: channel_to_linear_high[OF h])
  qed
qed

lemma linear_to_channel_byte: "byte (linear_to_channel x)"
proof -
  define v where "v = max 0 (min 1 x)"
  have v: "0 \<le> v" "v \<le> 1" by (simp_all add: v_def)
  define srgb where
    "srgb = (if v \<le> 0.0031308 then v * 12.92 else 1.055 * (v powr (1 / 2.4)) - 0.055)"
  have l: "linear_to_channel x = py_round (srgb * 255)"
    unfolding linear_to_channel_def Let_def v_def srgb_def ..
  have "0 \<le> srgb \<and> srgb \<le> 1"
  proof (cases "v \<le> 0.0031308")
    case True
    then show ?thesis using v by (simp add: srgb_def)
  next
    case False
    then have pos: "0 < v" by simp
    let ?p = "v powr (1 / 2.4)"
    have p1: "?p \<le> 1" using v by (intro powr_le1) simp_all
    have p0: "0 \<le> ?p" by simp
    have "(0.055 / 1.055) ^ 12 \<le> (0.0031308::real) ^ 5" by (simp add: power_divide)
    also have "\<dots> \<le> v ^ 5" using False by (intro power_mono) simp_all
    also have "\<dots> = ?p ^ 12" by (rule powr_inv24_pow12[OF pos, symmetric])
    finally have "0.055 / 1.055 \<le> ?p"
      using p0 by (meson power_mono_iff not_le power_strict_mono zero_less_numeral divide_nonneg_nonneg) 
    then show ?thesis using p1 False by (simp add: srgb_def field_simps)
  qed
  then have "of_int 0 \<le> srgb * 255" "srgb * 255 \<le> of_int 255" by simp_all
  then show ?thesis unfolding l byte_def by (metis py_round_range)
qed

lemma powr_24_inverse:
  assumes "0 < (x::real)"
  shows "(x powr 2.4) powr (1 / 2.4) = x"
  using assms by (simp add: powr_powr)

lemma channel_roundtrip:
  assumes "byte n"
  shows "linear_to_channel (channel_to_linear n) = n"
proof (cases "n \<le> 10")
  case True
  have n: "0 \<le> (of_int n :: real)" "(of_int n :: real) \<le> 10"
    using assms True by (simp_all add: byte_def)
  define v where "v = (of_int n :: real) / 255 / 12.92"
  have v: "0 \<le> v" "v \<le> 0.0031308" using n by (simp_all add: v_def)
  then have m: "max 0 (min 1 v) = v" by simp
  have "linear_to_channel v = py_round (v * 12.92 * 255)"
    unfolding linear_to_channel_def Let_def m using v by simp
  also have "v * 12.92 * 255 = of_int n" by (simp add: v_def)
  finally show ?thesis
    by (simp add: channel_to_linear_low[OF True] v_def py_round_of_int)
next
  case False
  then have h: "11 \<le> n" by simp
  have n: "11 \<le> (of_int n :: real)" "(of_int n :: real) \<le> 255"
    using assms h by (simp_all add: byte_def)
  define x where "x = ((of_int n :: real) / 255 + 0.055) / 1.055"
  have x: "0 < x" "x \<le> 1" using n by (simp_all add: x_def)
  have x0: "(11 / 255 + 0.055) / 1.055 \<le> x" using n by (simp add: x_def)
  define v where "v = x powr 2.4"
  have v1: "v \<le> 1" unfolding v_def using x by (intro powr_le1) simp_all
  have v0: "0 < v" unfolding v_def using x by simp
  have "(0.0031308::real) ^ 5 < ((11 / 255 + 0.055) / 1.055) ^ 12"
    by (simp add: power_divide)
  also have "\<dots> \<le> x ^ 12" using x0 by (intro power_mono) simp_all
  also have "\<dots> = v ^ 5" unfolding v_def by (rule powr_24_pow5[OF x(1), symmetric])
  finally have "(0.0031308::real) ^ 5 < v ^ 5" .
  then have big: "0.0031308 < v"
    using v0 by (meson less_eq_real_def power_less_imp_less_base)
  have m: "max 0 (min 1 v) = v" using v0 v1 by simp
  have "linear_to_channel v = py_round ((1.055 * (v powr (1 / 2.4)) - 0.055) * 255)"
    unfolding linear_to_channel_def Let_def m using big by simp
  also have "v powr (1 / 2.4) = x" unfolding v_def by (rule powr_24_inverse[OF x(1)])
  also have "(1.055 * x - 0.055) * 255 = of_int n" by (simp add: x_def field_simps)
  finally show ?thesis
    by (simp add: channel_to_linear_high[OF h] v_def x_def py_round_of_int)
qed

lemma luminance_of_range:
  assumes "0 \<le> r" "r \<le> 1" "0 \<le> g" "g \<le> 1" "0 \<le> b" "b \<le> 1"
  shows "0 \<le> luminance_of r g b" "luminance_of r g b \<le> 1"
  using assms by (simp_all add: luminance_of_def)

lemma luminance_of_gray: "luminance_of c c c = c"
  by (simp add: luminance_of_def)



section \<open>The search for the saturation factor\<close>

lemma boost_search_step:
  "boost_search r g b y (Suc n) (low, high) =
     (if in_gamut r g b y ((low + high) / 2)
      then boost_search r g b y n ((low + high) / 2, high)
      else boost_search r g b y n (low, (low + high) / 2))"
  by (simp add: in_gamut_def Let_def split: prod.splits)

lemma affine_between:
  fixes y d :: real
  assumes "a \<le> m" "m \<le> c"
  shows "0 \<le> y + d * a \<Longrightarrow> 0 \<le> y + d * c \<Longrightarrow> 0 \<le> y + d * m"
    and "y + d * a \<le> 1 \<Longrightarrow> y + d * c \<le> 1 \<Longrightarrow> y + d * m \<le> 1"
proof -
  have "d * a \<le> d * m \<or> d * c \<le> d * m"
    using assms by (cases "0 \<le> d") (simp_all add: mult_left_mono mult_left_mono_neg)
  then show "0 \<le> y + d * a \<Longrightarrow> 0 \<le> y + d * c \<Longrightarrow> 0 \<le> y + d * m" by linarith
  have "d * m \<le> d * a \<or> d * m \<le> d * c"
    using assms by (cases "0 \<le> d") (simp_all add: mult_left_mono mult_left_mono_neg)
  then show "y + d * a \<le> 1 \<Longrightarrow> y + d * c \<le> 1 \<Longrightarrow> y + d * m \<le> 1" by linarith
qed

lemma in_gamut_convex:
  assumes "in_gamut r g b y a" "in_gamut r g b y c" "a \<le> m" "m \<le> c"
  shows "in_gamut r g b y m"
  using assms(1,2) affine_between[OF assms(3,4)]
  unfolding in_gamut_def transform_def prod.case by blast

lemma in_gamut_one:
  assumes "0 \<le> r" "r \<le> 1" "0 \<le> g" "g \<le> 1" "0 \<le> b" "b \<le> 1"
  shows "in_gamut r g b y 1"
  using assms by (simp add: in_gamut_def transform_def)

lemma boost_search_invariant:
  assumes "low \<le> high" "in_gamut r g b y low"
    and "\<forall>k. in_gamut r g b y k \<and> k \<le> F \<longrightarrow> k \<le> high"
    and "boost_search r g b y n (low, high) = (low', high')"
  shows "low \<le> low' \<and> low' \<le> high' \<and> high' \<le> high \<and> in_gamut r g b y low'
         \<and> (\<forall>k. in_gamut r g b y k \<and> k \<le> F \<longrightarrow> k \<le> high')
         \<and> high' - low' = (high - low) / 2 ^ n"
  using assms
proof (induction n arbitrary: low high)
  case 0
  then show ?case by simp
next
  case (Suc n)
  let ?mid = "(low + high) / 2"
  have m: "low \<le> ?mid" "?mid \<le> high" using Suc.prems(1) by simp_all
  show ?case
  proof (cases "in_gamut r g b y ?mid")
    case True
    with Suc.prems(4) have s: "boost_search r g b y n (?mid, high) = (low', high')"
      by (simp only: boost_search_step if_True)
    from Suc.IH[OF m(2) True Suc.prems(3) s] m
    show ?thesis by (simp add: field_simps)
  next
    case False
    with Suc.prems(4) have s: "boost_search r g b y n (low, ?mid) = (low', high')"
      by (simp only: boost_search_step if_False)
    have ub: "\<forall>k. in_gamut r g b y k \<and> k \<le> F \<longrightarrow> k \<le> ?mid"
    proof (intro allI impI, rule ccontr)
      fix k
      assume k: "in_gamut r g b y k \<and> k \<le> F" and "\<not> k \<le> ?mid"
      then have "?mid \<le> k" by simp
      from in_gamut_convex[OF Suc.prems(2) conjunct1[OF k] m(1) this] False
      show False by simp
    qed
    from Suc.IH[OF m(1) Suc.prems(2) ub s] m
    show ?thesis by (simp add: field_simps)
  qed
qed

lemma boost_search_result:
  assumes "1 \<le> factor" "in_gamut r g b y 1"
  defines "low \<equiv> fst (boost_search r g b y 20 (1, factor))"
  shows "1 \<le> low" "low \<le> factor" "in_gamut r g b y low"
    "\<forall>k. in_gamut r g b y k \<and> k \<le> factor \<longrightarrow> k \<le> low + (factor - 1) / 2 ^ 20"
proof -
  obtain low' high' where s: "boost_search r g b y 20 (1, factor) = (low', high')"
    by (cases "boost_search r g b y 20 (1, factor)")
  have l: "low = low'" by (simp add: low_def s)
  have ub: "\<forall>k. in_gamut r g b y k \<and> k \<le> factor \<longrightarrow> k \<le> factor" by simp
  note inv = boost_search_invariant[OF assms(1,2) ub s]
  show "1 \<le> low" "low \<le> factor" "in_gamut r g b y low" using inv l by auto
  from inv have "high' - low' = (factor - 1) / 2 ^ 20" by blast
  then have "high' = low + (factor - 1) / 2 ^ 20" unfolding l by linarith
  then show "\<forall>k. in_gamut r g b y k \<and> k \<le> factor \<longrightarrow> k \<le> low + (factor - 1) / 2 ^ 20"
    using inv by simp
qed

section \<open>Luminance scaling and canonical results\<close>

lemma scale_linear_no_overflow:
  assumes "\<not> 1 < max (max (rl * (t / cur)) (gl * (t / cur))) (bl * (t / cur))"
  shows "scale_linear rl gl bl cur t = (rl * (t / cur), gl * (t / cur), bl * (t / cur))"
  using assms by (simp add: scale_linear_def Let_def)

lemma hex_to_rgb_canonical:
  assumes "canonical c"
  obtains r g b where "byte r" "byte g" "byte b" "c = rgb_to_hex (r, g, b)"
    "hex_to_rgb c = Some (r, g, b)"
  using canonical_decompose[OF assms] hex_to_rgb_rgb_to_hex by blast

lemma relative_luminance_canonical:
  assumes "canonical c"
  obtains l where "relative_luminance c = Some l" "0 \<le> l" "l \<le> 1"
proof -
  from assms obtain r g b where h: "byte r" "byte g" "byte b" "hex_to_rgb c = Some (r, g, b)"
    by (rule hex_to_rgb_canonical)
  let ?l = "luminance_of (channel_to_linear r) (channel_to_linear g) (channel_to_linear b)"
  have "relative_luminance c = Some ?l" by (simp add: relative_luminance_def h(4))
  moreover have "0 \<le> ?l" "?l \<le> 1"
    using channel_to_linear_range h(1-3) by (simp_all add: luminance_of_range)
  ultimately show ?thesis using that by blast
qed

lemma contrast_ratio_canonical:
  assumes "canonical a" "canonical b"
  shows "\<exists>cr. contrast_ratio a b = Some cr"
proof -
  from assms(1) obtain la where "relative_luminance a = Some la" 
    by (rule relative_luminance_canonical)
  moreover from assms(2) obtain lb where "relative_luminance b = Some lb" 
    by (rule relative_luminance_canonical)
  ultimately show ?thesis by (simp add: contrast_ratio_def)
qed

lemma boost_canonical:
  assumes "canonical c"
  shows "\<exists>c'. boost_saturation_preserve_luminance c f = Some c' \<and> canonical c'"
proof (cases "f \<le> 1")
  case True
  then show ?thesis using assms by (simp add: boost_saturation_preserve_luminance_def)
next
  case False
  from assms obtain r g b where h: "hex_to_rgb c = Some (r, g, b)"
    by (rule hex_to_rgb_canonical)
  show ?thesis using False
    by (simp add: boost_saturation_preserve_luminance_def h Let_def canonical_rgb_to_hex
        linear_to_channel_byte split: prod.splits)
qed

lemma scale_luminance_canonical:
  assumes "canonical c"
  shows "\<exists>c'. scale_luminance c t = Some c' \<and> canonical c'"
proof -
  from assms obtain r g b where h: "hex_to_rgb c = Some (r, g, b)"
    by (rule hex_to_rgb_canonical)
  show ?thesis using assms
    by (simp add: scale_luminance_def h Let_def canonical_rgb_to_hex
        linear_to_channel_byte split: prod.splits)
qed

lemma clamp_lum_canonical:
  assumes "canonical c"
  shows "\<exists>c'. clamp_lum c = Some c' \<and> canonical c'"
proof -
  from assms obtain l where "relative_luminance c = Some l" 
    by (rule relative_luminance_canonical)
  then show ?thesis
    using assms scale_luminance_canonical[OF assms] by (simp add: clamp_lum_def)
qed

lemma ensure_contrast_canonical:
  assumes "canonical c" "canonical bg"
  shows "\<exists>c'. ensure_contrast bg l c = Some c' \<and> canonical c'"
proof -
  from contrast_ratio_canonical[OF assms] obtain cr where "contrast_ratio c bg = Some cr" ..
  then show ?thesis
    using assms scale_luminance_canonical[OF assms(1)] by (simp add: ensure_contrast_def Let_def)
qed

lemma blend_canonical:
  assumes "canonical a" "canonical b" "0 \<le> t" "t \<le> 1"
  shows "\<exists>c. blend a b t = Some c \<and> canonical c"
proof -
  from assms(1) obtain ar ag ab where a: "byte ar" "byte ag" "byte ab"
    "hex_to_rgb a = Some (ar, ag, ab)" by (rule hex_to_rgb_canonical)
  from assms(2) obtain br bg bb where b: "byte br" "byte bg" "byte bb"
    "hex_to_rgb b = Some (br, bg, bb)" by (rule hex_to_rgb_canonical)
  have mix: "byte (py_round (of_int x + of_int (y - x) * t))" if "byte x" "byte y" for x y
  proof -
    let ?v = "of_int x + of_int (y - x) * t"
    have e: "?v = (1 - t) * of_int x + t * of_int y" by (simp add: algebra_simps)
    have x: "0 \<le> (of_int x :: real)" "(of_int x :: real) \<le> 255"
      and y: "0 \<le> (of_int y :: real)" "(of_int y :: real) \<le> 255"
      using that by (simp_all add: byte_def)
    have "0 \<le> (1 - t) * of_int x" "0 \<le> t * of_int y"
      using assms(3,4) x y by simp_all
    then have lo: "of_int 0 \<le> ?v" unfolding e by simp
    have "(1 - t) * of_int x \<le> (1 - t) * 255"
      by (rule mult_left_mono) (use assms(4) x in simp_all)
    moreover have "t * of_int y \<le> t * 255"
      by (rule mult_left_mono) (use assms(3) y in simp_all)
    ultimately have hi: "?v \<le> of_int 255" unfolding e by (simp add: algebra_simps)
    show ?thesis unfolding byte_def using py_round_range[OF lo hi] by simp
  qed
  have "canonical (rgb_to_hex (py_round (of_int ar + of_int (br - ar) * t),
      py_round (of_int ag + of_int (bg - ag) * t), py_round (of_int ab + of_int (bb - ab) * t)))"
    by (intro canonical_rgb_to_hex mix a b)
  then show ?thesis
    by (simp add: blend_def a(4) b(4))
qed

section \<open>Candidates and the first maximum\<close>

lemma remdups_drop_mid:
  assumes "n \<in> set ys"
  shows "remdups (xs @ n # ys) = remdups (xs @ ys)"
  using assms by (induction xs) auto

lemma first_occurrences_snoc_mem:
  assumes "n \<in> set acc"
  shows "first_occurrences (acc @ n # ns) = first_occurrences (acc @ ns)"
  using remdups_drop_mid[of n "rev acc" "rev ns"] assms
  by (simp add: first_occurrences_def)

lemma first_occurrences_distinct:
  assumes "distinct xs"
  shows "first_occurrences xs = xs"
  using assms by (simp add: first_occurrences_def distinct_remdups_id)

lemma unique_candidates_eq:
  assumes "distinct acc"
  shows "unique_candidates acc cs = first_occurrences (acc @ normalized_candidates cs)"
  using assms
proof (induction cs arbitrary: acc)
  case Nil
  then show ?case
    by (simp add: normalized_candidates_def map_filter_simps first_occurrences_distinct)
next
  case (Cons c cs)
  show ?case
  proof (cases "normalize_hex c")
    case None
    then show ?thesis using Cons
      by (simp add: normalized_candidates_def map_filter_simps)
  next
    case (Some n)
    show ?thesis
    proof (cases "n \<in> set acc")
      case True
      then show ?thesis using Cons Some
        by (simp add: normalized_candidates_def map_filter_simps first_occurrences_snoc_mem)
    next
      case False
      then have "distinct (acc @ [n])" using Cons.prems by simp
      from Cons.IH[OF this] False Some show ?thesis
        by (simp add: normalized_candidates_def map_filter_simps)
    qed
  qed
qed

lemma max_first_split:
  "\<exists>pre m post. b # xs = pre @ m # post \<and> max_first b xs = fst m
      \<and> (\<forall>p \<in> set pre. snd p < snd m) \<and> (\<forall>p \<in> set post. snd p \<le> snd m)"
proof (induction xs arbitrary: b)
  case Nil
  have "[b] = [] @ b # []" by simp
  then show ?case by fastforce
next
  case (Cons x xs)
  show ?case
  proof (cases "snd b < snd x")
    case True
    from Cons.IH[of x] obtain pre m post where s: "x # xs = pre @ m # post"
      "max_first x xs = fst m" "\<forall>p \<in> set pre. snd p < snd m" "\<forall>p \<in> set post. snd p \<le> snd m"
      by blast
    have "snd x \<le> snd m" using s(1,3) by (cases pre) auto
    with True have "snd b < snd m" by simp
    then have c: "\<forall>p \<in> set (b # pre). snd p < snd m" using s(3) by simp
    have a: "b # x # xs = (b # pre) @ m # post" using s(1) by simp
    have "max_first b (x # xs) = fst m" using True s(2) by simp
    with a c s(4) show ?thesis by blast
  next
    case False
    from Cons.IH[of b] obtain pre m post where s: "b # xs = pre @ m # post"
      "max_first b xs = fst m" "\<forall>p \<in> set pre. snd p < snd m" "\<forall>p \<in> set post. snd p \<le> snd m"
      by blast
    show ?thesis
    proof (cases pre)
      case Nil
      with s(1) have e: "m = b" "xs = post" by simp_all
      have a: "b # x # xs = [] @ m # (x # post)" using e by simp
      have c: "\<forall>p \<in> set (x # post). snd p \<le> snd m" using s(4) False e by simp
      have d: "\<forall>p \<in> set ([] :: ('a \<times> real) list). snd p < snd m" by simp
      have "max_first b (x # xs) = fst m" using False s(2) by simp
      with a c d show ?thesis by blast
    next
      case (Cons b' pre')
      with s(1) have e: "b' = b" "xs = pre' @ m # post" by simp_all
      have bm: "snd b < snd m" using s(3) Cons e by simp
      with False have "snd x < snd m" by simp
      then have c: "\<forall>p \<in> set (b # x # pre'). snd p < snd m" using s(3) Cons bm by simp
      have a: "b # x # xs = (b # x # pre') @ m # post" using e by simp
      have "max_first b (x # xs) = fst m" using False s(2) by simp
      with a c s(4) show ?thesis by blast
    qed
  qed
qed

section \<open>The best-contrast text colour\<close>

lemma normalized_candidates_canonical:
  assumes "n \<in> set (normalized_candidates cs)"
  shows "canonical n"
  using assms canonical_normalize_hex
  by (auto simp: normalized_candidates_def List.map_filter_def)

lemma unique_candidates_nil:
  "unique_candidates [] cs = first_occurrences (normalized_candidates cs)"
  using unique_candidates_eq[of "[]" cs] by simp

lemma first_occurrences_set: "set (first_occurrences xs) = set xs"
  by (simp add: first_occurrences_def)

lemma first_occurrences_nil_iff: "first_occurrences xs = [] \<longleftrightarrow> xs = []"
  using first_occurrences_set[of xs] by (metis set_empty)

lemma those_map_Some:
  assumes "\<forall>x \<in> set xs. f x = Some (g x)"
  shows "those (map f xs) = Some (map g xs)"
  using assms by (induction xs) simp_all

lemma contrast_of_canonical:
  assumes "canonical a" "canonical b"
  shows "contrast_ratio a b = Some (contrast_of a b)"
  using contrast_ratio_canonical[OF assms] by (auto simp: contrast_of_def)

lemma best_contrast_text_empty:
  assumes "normalized_candidates cs = []"
  shows "best_contrast_text bg cs = Some ''#ffffff''"
  using assms
  by (simp add: best_contrast_text_def unique_candidates_nil first_occurrences_def)

lemma best_contrast_text_first_max:
  assumes bg: "canonical bg" and ne: "normalized_candidates cs \<noteq> []"
  shows "\<exists>pre m post. first_occurrences (normalized_candidates cs) = pre @ m # post
      \<and> best_contrast_text bg cs = Some m
      \<and> (\<forall>p \<in> set pre. contrast_of bg p < contrast_of bg m)
      \<and> (\<forall>p \<in> set post. contrast_of bg p \<le> contrast_of bg m)"
proof -
  define u where "u = first_occurrences (normalized_candidates cs)"
  have une: "u \<noteq> []" using ne by (simp add: u_def first_occurrences_nil_iff)
  have can: "\<forall>x \<in> set u. canonical x"
    using normalized_candidates_canonical by (simp add: u_def first_occurrences_set)
  then have "\<forall>x \<in> set u. contrast_ratio bg x = Some (contrast_of bg x)"
    using contrast_of_canonical[OF bg] by blast
  then have th: "those (map (contrast_ratio bg) u) = Some (map (contrast_of bg) u)"
    by (rule those_map_Some)
  define pairs where "pairs = map (\<lambda>x. (x, contrast_of bg x)) u"
  have z: "zip u (map (contrast_of bg) u) = pairs"
    by (simp add: pairs_def zip_map2 zip_same_conv_map)
  have pne: "pairs \<noteq> []" using une by (simp add: pairs_def)
  have b: "best_contrast_text bg cs = Some (max_first (hd pairs) (tl pairs))"
    using une by (simp add: best_contrast_text_def unique_candidates_nil u_def[symmetric] th z)
  from max_first_split[of "hd pairs" "tl pairs"] pne
  obtain pre m post where s: "pairs = pre @ m # post" "max_first (hd pairs) (tl pairs) = fst m"
    "\<forall>p \<in> set pre. snd p < snd m" "\<forall>p \<in> set post. snd p \<le> snd m"
    by auto
  have sn: "snd p = contrast_of bg (fst p)" if "p \<in> set pairs" for p
    using that by (auto simp: pairs_def)
  have "map fst pairs = u" by (simp add: pairs_def comp_def)
  then have u: "u = map fst pre @ fst m # map fst post" using s(1) by simp
  have "\<forall>p \<in> set (map fst pre). contrast_of bg p < contrast_of bg (fst m)"
    using s(1,3) sn by auto
  moreover have "\<forall>p \<in> set (map fst post). contrast_of bg p \<le> contrast_of bg (fst m)"
    using s(1,4) sn by auto
  ultimately show ?thesis using u b s(2) unfolding u_def by metis
qed

lemma best_contrast_text_canonical:
  assumes "canonical bg"
  shows "\<exists>c. best_contrast_text bg cs = Some c \<and> canonical c"
proof (cases "normalized_candidates cs = []")
  case True
  have "canonical ''#ffffff''" by code_simp
  then show ?thesis using best_contrast_text_empty[OF True] by simp
next
  case False
  from best_contrast_text_first_max[OF assms False] obtain pre m post where
    s: "first_occurrences (normalized_candidates cs) = pre @ m # post"
    "best_contrast_text bg cs = Some m" by blast
  have "m \<in> set (first_occurrences (normalized_candidates cs))" unfolding s(1) by simp
  then have "canonical m"
    using normalized_candidates_canonical by (simp add: first_occurrences_set)
  then show ?thesis using s(2) by simp
qed

section \<open>The dark-theme corrections\<close>

lemma canonical_nonempty: "canonical c \<Longrightarrow> c \<noteq> []"
  by (auto simp: canonical_def)

lemma py_or_canonical:
  assumes "\<forall>v \<in> set_option x. canonical v" "canonical y"
  shows "canonical (py_or x y)"
  using assms by (cases x) (auto simp: py_or_def)

lemma py_or_absent: "py_or None y = y"
  by (simp add: py_or_def)

lemma py_or_present: "canonical v \<Longrightarrow> py_or (Some v) y = v"
  by (auto simp: py_or_def dest: canonical_nonempty)

lemma correct_accent_canonical:
  assumes "canonical c" "canonical bg"
  shows "\<exists>c'. correct_accent bg l c = Some c' \<and> canonical c'"
proof -
  from boost_canonical[OF assms(1)] obtain c1 where
    1: "boost_saturation_preserve_luminance c DARK_THEME_SATURATION_BOOST = Some c1" "canonical c1"
    by blast
  from clamp_lum_canonical[OF 1(2)] obtain c2 where 2: "clamp_lum c1 = Some c2" "canonical c2"
    by blast
  from ensure_contrast_canonical[OF 2(2) assms(2)] obtain c3 where
    "ensure_contrast bg l c2 = Some c3" "canonical c3" by blast
  then show ?thesis by (simp add: correct_accent_def 1 2)
qed

lemma correct_accent_SomeD:
  assumes "correct_accent bg l c = Some c'"
  obtains c1 c2 where
    "boost_saturation_preserve_luminance c DARK_THEME_SATURATION_BOOST = Some c1"
    "clamp_lum c1 = Some c2" "ensure_contrast bg l c2 = Some c'"
  using assms by (auto simp: correct_accent_def bind_eq_Some_conv)

lemma dark_theme_corrections_light:
  assumes "relative_luminance bg = Some l" "\<not> l < DARK_BACKGROUND_LUMINANCE_THRESHOLD"
  shows "dark_theme_corrections bg a = Some a"
  using assms by (simp add: dark_theme_corrections_def)

lemma dark_theme_corrections_dark:
  assumes l: "relative_luminance bg = Some l" "l < DARK_BACKGROUND_LUMINANCE_THRESHOLD"
    and r: "correct_accent bg l (red a) = Some r'"
    and g: "correct_accent bg l (green a) = Some g'"
    and y: "correct_accent bg l (yellow a) = Some y'"
    and b: "correct_accent bg l (blue a) = Some b'"
    and p: "correct_accent bg l (purple a) = Some p'"
    and q: "correct_accent bg l (aqua a) = Some q'"
    and o: "correct_accent bg l (orange a) = Some o'"
  shows "dark_theme_corrections bg a =
     Some \<lparr>red = r', green = g', yellow = y', blue = b', purple = p', aqua = q', orange = o'\<rparr>"
proof -
  from r obtain r1 r2 where r:
    "boost_saturation_preserve_luminance (red a) DARK_THEME_SATURATION_BOOST = Some r1"
    "clamp_lum r1 = Some r2" "ensure_contrast bg l r2 = Some r'" by (rule correct_accent_SomeD)
  from g obtain g1 g2 where g:
    "boost_saturation_preserve_luminance (green a) DARK_THEME_SATURATION_BOOST = Some g1"
    "clamp_lum g1 = Some g2" "ensure_contrast bg l g2 = Some g'" by (rule correct_accent_SomeD)
  from y obtain y1 y2 where y:
    "boost_saturation_preserve_luminance (yellow a) DARK_THEME_SATURATION_BOOST = Some y1"
    "clamp_lum y1 = Some y2" "ensure_contrast bg l y2 = Some y'" by (rule correct_accent_SomeD)
  from b obtain b1 b2 where b:
    "boost_saturation_preserve_luminance (blue a) DARK_THEME_SATURATION_BOOST = Some b1"
    "clamp_lum b1 = Some b2" "ensure_contrast bg l b2 = Some b'" by (rule correct_accent_SomeD)
  from p obtain p1 p2 where p:
    "boost_saturation_preserve_luminance (purple a) DARK_THEME_SATURATION_BOOST = Some p1"
    "clamp_lum p1 = Some p2" "ensure_contrast bg l p2 = Some p'" by (rule correct_accent_SomeD)
  from q obtain q1 q2 where q:
    "boost_saturation_preserve_luminance (aqua a) DARK_THEME_SATURATION_BOOST = Some q1"
    "clamp_lum q1 = Some q2" "ensure_contrast bg l q2 = Some q'" by (rule correct_accent_SomeD)
  from o obtain o1 o2 where o:
    "boost_saturation_preserve_luminance (orange a) DARK_THEME_SATURATION_BOOST = Some o1"
    "clamp_lum o1 = Some o2" "ensure_contrast bg l o2 = Some o'" by (rule correct_accent_SomeD)
  show ?thesis
    unfolding dark_theme_corrections_def
    by (simp add: l r g y b p q o)
qed

lemma dark_theme_corrections_canonical:
  assumes "canonical bg" "canonical_accents a"
  shows "\<exists>a'. dark_theme_corrections bg a = Some a' \<and> canonical_accents a'"
proof -
  from assms(1) obtain l where l: "relative_luminance bg = Some l"
    by (rule relative_luminance_canonical)
  show ?thesis
  proof (cases "l < DARK_BACKGROUND_LUMINANCE_THRESHOLD")
    case False
    then show ?thesis using dark_theme_corrections_light[OF l] assms(2) by simp
  next
    case True
    note c = correct_accent_canonical[OF _ assms(1), of _ l]
    from assms(2) c[of "red a"] c[of "green a"] c[of "yellow a"] c[of "blue a"]
      c[of "purple a"] c[of "aqua a"] c[of "orange a"]
    obtain r' g' y' b' p' q' o' where
      "correct_accent bg l (red a) = Some r'" "canonical r'"
      "correct_accent bg l (green a) = Some g'" "canonical g'"
      "correct_accent bg l (yellow a) = Some y'" "canonical y'"
      "correct_accent bg l (blue a) = Some b'" "canonical b'"
      "correct_accent bg l (purple a) = Some p'" "canonical p'"
      "correct_accent bg l (aqua a) = Some q'" "canonical q'"
      "correct_accent bg l (orange a) = Some o'" "canonical o'"
      unfolding canonical_accents_def by blast
    then show ?thesis
      using dark_theme_corrections_dark[OF l True, of a r' g' y' b' p' q' o']
      by (simp add: canonical_accents_def)
  qed
qed

section \<open>The derived palette\<close>

lemma canonical_constants:
  "canonical ''#fbf1c7''" "canonical ''#3c3836''" "canonical ''#cc241d''" "canonical ''#98971a''"
  "canonical ''#d79921''" "canonical ''#458588''" "canonical ''#b16286''" "canonical ''#689d6a''"
  "canonical ''#ffffff''" "canonical ''#000000''"
  by code_simp+

lemma valid_parsedD:
  assumes "valid_parsed p"
  shows "\<forall>v \<in> set_option (cfg_palette p k). canonical v"
    "\<forall>v \<in> set_option (cfg_foreground p). canonical v"
    "\<forall>v \<in> set_option (cfg_background p). canonical v"
    "\<forall>v \<in> set_option (cfg_selection_background p). canonical v"
  using assms by (auto simp: valid_parsed_def ran_def)

lemma palette_inputs_valid:
  assumes v: "valid_parsed p"
  defines "fg \<equiv> py_or (cfg_foreground p) (py_or (cfg_palette p 7) ''#fbf1c7'')"
    and "bg \<equiv> py_or (cfg_background p) (py_or (cfg_palette p 0) ''#3c3836'')"
    and "red0 \<equiv> py_or (cfg_palette p 1) ''#cc241d''"
    and "green0 \<equiv> py_or (cfg_palette p 2) ''#98971a''"
    and "yellow0 \<equiv> py_or (cfg_palette p 3) ''#d79921''"
    and "blue0 \<equiv> py_or (cfg_palette p 4) ''#458588''"
    and "purple0 \<equiv> py_or (cfg_palette p 5) ''#b16286''"
    and "aqua0 \<equiv> py_or (cfg_palette p 6) ''#689d6a''"
  shows "\<exists>sel orange0.
      palette_inputs p = Some \<lparr>in_foreground = fg, in_background = bg,
         in_selection_background = sel,
         in_accents = \<lparr>red = red0, green = green0, yellow = yellow0, blue = blue0,
                       purple = purple0, aqua = aqua0, orange = orange0\<rparr>\<rparr>
      \<and> blend red0 yellow0 0.5 = Some orange0
      \<and> (case cfg_selection_background p of
            Some s \<Rightarrow> sel = s
          | None \<Rightarrow> (case cfg_palette p 8 of
                       Some s \<Rightarrow> sel = s
                     | None \<Rightarrow> blend bg fg 0.25 = Some sel))
      \<and> canonical fg \<and> canonical bg \<and> canonical sel
      \<and> canonical_accents \<lparr>red = red0, green = green0, yellow = yellow0, blue = blue0,
                       purple = purple0, aqua = aqua0, orange = orange0\<rparr>"
proof -
  note d = valid_parsedD[OF v]
  have c: "canonical fg" "canonical bg" "canonical red0" "canonical green0" "canonical yellow0"
    "canonical blue0" "canonical purple0" "canonical aqua0"
    unfolding fg_def bg_def red0_def green0_def yellow0_def blue0_def purple0_def aqua0_def
    by (intro py_or_canonical d canonical_constants)+
  from blend_canonical[OF c(3) c(5), of "0.5"] obtain orange0 where
    o: "blend red0 yellow0 0.5 = Some orange0" "canonical orange0" by auto
  from blend_canonical[OF c(2) c(1), of "0.25"] obtain bl where
    bl: "blend bg fg 0.25 = Some bl" "canonical bl" by auto
  define sel where "sel =
    (case cfg_selection_background p of Some s \<Rightarrow> s
     | None \<Rightarrow> (case cfg_palette p 8 of Some s \<Rightarrow> s | None \<Rightarrow> bl))"
  have cs: "canonical sel"
    using d(4) d(1)[of 8] bl(2) by (auto simp: sel_def split: option.splits)
  have se: "(case py_or (cfg_selection_background p) (py_or (cfg_palette p 8) []) of
             [] \<Rightarrow> blend bg fg 0.25 | x # xs \<Rightarrow> Some (x # xs)) = Some sel"
    using d(4) d(1)[of 8] bl(1)
    by (auto simp: sel_def py_or_def split: option.splits list.splits dest: canonical_nonempty)
  have 1: "palette_inputs p = Some \<lparr>in_foreground = fg, in_background = bg,
         in_selection_background = sel,
         in_accents = \<lparr>red = red0, green = green0, yellow = yellow0, blue = blue0,
                       purple = purple0, aqua = aqua0, orange = orange0\<rparr>\<rparr>"
    unfolding palette_inputs_def Let_def fg_def[symmetric] bg_def[symmetric] red0_def[symmetric]
      green0_def[symmetric] yellow0_def[symmetric] blue0_def[symmetric] purple0_def[symmetric]
      aqua0_def[symmetric]
    using se o(1) by simp
  have 2: "(case cfg_selection_background p of
            Some s \<Rightarrow> sel = s
          | None \<Rightarrow> (case cfg_palette p 8 of
                       Some s \<Rightarrow> sel = s
                     | None \<Rightarrow> blend bg fg 0.25 = Some sel))"
    using bl(1) by (simp add: sel_def split: option.splits)
  show ?thesis
    using 1 2 o c cs by (auto simp: canonical_accents_def)
qed

lemma palette_output_canonical:
  assumes "canonical (in_foreground i)" "canonical (in_background i)"
    "canonical (in_selection_background i)" "canonical_accents a"
  shows "\<exists>m. palette_output i a = Some m
      \<and> output_of i a m"
proof -
  let ?cs = "[in_foreground i, in_background i, ''#ffffff'', ''#000000'']"
  note b = best_contrast_text_canonical[of _ ?cs]
  from assms b[of "in_background i"] b[of "in_selection_background i"] b[of "blue a"]
    b[of "aqua a"] b[of "green a"] b[of "orange a"] b[of "purple a"] b[of "red a"]
    b[of "yellow a"]
  obtain t1 t2 t3 t4 t5 t6 t7 t8 t9 where t:
    "best_contrast_text (in_background i) ?cs = Some t1" "canonical t1"
    "best_contrast_text (in_selection_background i) ?cs = Some t2" "canonical t2"
    "best_contrast_text (blue a) ?cs = Some t3" "canonical t3"
    "best_contrast_text (aqua a) ?cs = Some t4" "canonical t4"
    "best_contrast_text (green a) ?cs = Some t5" "canonical t5"
    "best_contrast_text (orange a) ?cs = Some t6" "canonical t6"
    "best_contrast_text (purple a) ?cs = Some t7" "canonical t7"
    "best_contrast_text (red a) ?cs = Some t8" "canonical t8"
    "best_contrast_text (yellow a) ?cs = Some t9" "canonical t9"
    unfolding canonical_accents_def by blast
  show ?thesis
    unfolding palette_output_def Let_def output_of_def slot_names_def
    using assms t by (simp add: canonical_accents_def)
qed

lemma build_starship_palette_valid:
  assumes "valid_parsed p"
  shows "\<exists>i a m. palette_inputs p = Some i
      \<and> dark_theme_corrections (in_background i) (in_accents i) = Some a
      \<and> build_starship_palette p = Some m
      \<and> output_of i a m"
proof -
  from palette_inputs_valid[OF assms] obtain i where
    i: "palette_inputs p = Some i" "canonical (in_foreground i)" "canonical (in_background i)"
    "canonical (in_selection_background i)" "canonical_accents (in_accents i)"
    by force
  from dark_theme_corrections_canonical[OF i(3,5)] obtain a where
    a: "dark_theme_corrections (in_background i) (in_accents i) = Some a" "canonical_accents a"
    by blast
  from palette_output_canonical[OF i(2,3,4) a(2)] obtain m where
    m: "palette_output i a = Some m" and rest: "output_of i a m"
    by blast
  have "build_starship_palette p = Some m"
    by (simp add: build_starship_palette_def i(1) a(1) m)
  with i(1) a(1) rest show ?thesis by blast
qed

section \<open>Black, white and the claims on single functions\<close>

lemma channel_to_linear_0: "channel_to_linear 0 = 0"
  by (simp add: channel_to_linear_def)

lemma channel_to_linear_255: "channel_to_linear 255 = 1"
  by (simp add: channel_to_linear_def)

lemma hex_to_rgb_white: "hex_to_rgb ''#ffffff'' = Some (255, 255, 255)"
  by code_simp

lemma hex_to_rgb_black: "hex_to_rgb ''#000000'' = Some (0, 0, 0)"
  by code_simp

lemma relative_luminance_white: "relative_luminance ''#ffffff'' = Some 1"
  by (simp add: relative_luminance_def hex_to_rgb_white channel_to_linear_255 luminance_of_def)

lemma relative_luminance_black: "relative_luminance ''#000000'' = Some 0"
  by (simp add: relative_luminance_def hex_to_rgb_black channel_to_linear_0 luminance_of_def)

lemma contrast_black_white: "contrast_ratio ''#000000'' ''#ffffff'' = Some 21"
  by (simp add: contrast_ratio_def relative_luminance_white relative_luminance_black)

lemma contrast_black_black: "contrast_ratio ''#000000'' ''#000000'' = Some 1"
  by (simp add: contrast_ratio_def relative_luminance_black)

lemma best_contrast_text_black:
  "best_contrast_text ''#000000'' [''#ffffff'', ''#000000''] = Some ''#ffffff''"
proof -
  have n: "normalize_hex ''#ffffff'' = Some ''#ffffff''" "normalize_hex ''#000000'' = Some ''#000000''"
    by (simp_all add: normalize_hex_canonical canonical_constants)
  have u: "unique_candidates [] [''#ffffff'', ''#000000''] = [''#ffffff'', ''#000000'']"
    by (simp add: n)
  show ?thesis
    unfolding best_contrast_text_def u Let_def
    by (simp add: contrast_black_white contrast_black_black)
qed

text \<open>
  C9. For every byte \<open>n\<close> from 0 to 255, encoding the decoded channel gives \<open>n\<close> back:
  \<open>linear_to_channel (channel_to_linear n) = n\<close>, with the two transfer functions
  exactly as the source writes them (floats read as reals).
\<close>

theorem encode_decode_roundtrip:
  "0 \<le> n \<and> n \<le> 255 \<Longrightarrow> linear_to_channel (channel_to_linear n) = n"
  using channel_roundtrip[of n] by (simp add: byte_def)

theorem encode_decode_roundtrip_witness:
  "(0::int) \<le> 200 \<and> (200::int) \<le> 255 \<and> linear_to_channel (channel_to_linear 200) = 200"
  using encode_decode_roundtrip[of 200] by simp

text \<open>
  C7. For every canonical colour and every target, \<open>scale_luminance\<close> returns a colour
  whose three channels lie between 0 and 255; and when the relative luminance of the input is
  below 0.001 the result is the input itself.
\<close>

theorem scale_luminance_channels_in_range:
  assumes "canonical color"
  shows "\<exists>c r g b. scale_luminance color target = Some c \<and> hex_to_rgb c = Some (r, g, b)
           \<and> 0 \<le> r \<and> r \<le> 255 \<and> 0 \<le> g \<and> g \<le> 255 \<and> 0 \<le> b \<and> b \<le> 255
           \<and> (\<forall>l. relative_luminance color = Some l \<and> l < 0.001 \<longrightarrow> c = color)"
proof -
  from scale_luminance_canonical[OF assms] obtain c where
    c: "scale_luminance color target = Some c" "canonical c" by blast
  from c(2) obtain r g b where "byte r" "byte g" "byte b" "hex_to_rgb c = Some (r, g, b)"
    by (rule hex_to_rgb_canonical)
  moreover have "\<forall>l. relative_luminance color = Some l \<and> l < 0.001 \<longrightarrow> c = color"
    using c(1)
    by (auto simp: scale_luminance_def relative_luminance_def bind_eq_Some_conv Let_def)
  ultimately show ?thesis using c(1) unfolding byte_def by blast
qed

theorem scale_luminance_channels_in_range_witness:
  "canonical ''#000000'' \<and> relative_luminance ''#000000'' = Some 0 \<and> (0::real) < 0.001
     \<and> scale_luminance ''#000000'' 0.5 = Some ''#000000''
     \<and> hex_to_rgb ''#000000'' = Some (0, 0, 0)"
  using scale_luminance_channels_in_range[of "''#000000''" "0.5"]
  by (auto simp: canonical_constants relative_luminance_black hex_to_rgb_black)

lemma scale_luminance_unfold:
  assumes "hex_to_rgb color = Some (r, g, b)"
    and "\<not> luminance_of (channel_to_linear r) (channel_to_linear g) (channel_to_linear b) < 0.001"
    and "scale_linear (channel_to_linear r) (channel_to_linear g) (channel_to_linear b)
           (luminance_of (channel_to_linear r) (channel_to_linear g) (channel_to_linear b)) target
         = (nr, ng, nb)"
  shows "scale_luminance color target =
    Some (rgb_to_hex (linear_to_channel nr, linear_to_channel ng, linear_to_channel nb))"
  using assms by (simp add: scale_luminance_def Let_def)

text \<open>
  C8. \<open>best_contrast_text\<close> works on the normalised candidates with later duplicates
  dropped (the list the loop builds). When that list is empty the result is \<open>#ffffff\<close>.
  Otherwise, for a canonical surface, the result is an element \<open>m\<close> of the list such that
  every candidate before it has a strictly smaller contrast ratio against the surface and
  every candidate after it has a contrast ratio that is not larger: the first maximum.
  And \<open>best_contrast_text("#000000", ["#ffffff", "#000000"])\<close> is \<open>#ffffff\<close>.
\<close>

theorem best_contrast_text_picks_first_maximum:
  "unique_candidates [] cs = first_occurrences (normalized_candidates cs)
   \<and> (normalized_candidates cs = [] \<longrightarrow> best_contrast_text bg cs = Some ''#ffffff'')
   \<and> (canonical bg \<and> normalized_candidates cs \<noteq> [] \<longrightarrow>
        (\<exists>pre m post. first_occurrences (normalized_candidates cs) = pre @ m # post
           \<and> best_contrast_text bg cs = Some m
           \<and> (\<forall>p \<in> set (pre @ m # post). contrast_ratio bg p = Some (contrast_of bg p))
           \<and> (\<forall>p \<in> set pre. contrast_of bg p < contrast_of bg m)
           \<and> (\<forall>p \<in> set post. contrast_of bg p \<le> contrast_of bg m)))
   \<and> best_contrast_text ''#000000'' [''#ffffff'', ''#000000''] = Some ''#ffffff''"
proof -
  have "\<exists>pre m post. first_occurrences (normalized_candidates cs) = pre @ m # post
           \<and> best_contrast_text bg cs = Some m
           \<and> (\<forall>p \<in> set (pre @ m # post). contrast_ratio bg p = Some (contrast_of bg p))
           \<and> (\<forall>p \<in> set pre. contrast_of bg p < contrast_of bg m)
           \<and> (\<forall>p \<in> set post. contrast_of bg p \<le> contrast_of bg m)"
    if bg: "canonical bg" and ne: "normalized_candidates cs \<noteq> []"
  proof -
    from best_contrast_text_first_max[OF bg ne] obtain pre m post where
      s: "first_occurrences (normalized_candidates cs) = pre @ m # post"
      "best_contrast_text bg cs = Some m"
      "\<forall>p \<in> set pre. contrast_of bg p < contrast_of bg m"
      "\<forall>p \<in> set post. contrast_of bg p \<le> contrast_of bg m" by blast
    have "\<forall>p \<in> set (pre @ m # post). canonical p"
      using normalized_candidates_canonical first_occurrences_set[of "normalized_candidates cs"]
      unfolding s(1) by blast
    then have "\<forall>p \<in> set (pre @ m # post). contrast_ratio bg p = Some (contrast_of bg p)"
      using contrast_of_canonical[OF bg] by blast
    with s show ?thesis by blast
  qed
  then show ?thesis
    using unique_candidates_nil[of cs] best_contrast_text_empty[of cs bg] best_contrast_text_black
    by blast
qed

theorem best_contrast_text_picks_first_maximum_witness:
  "canonical ''#000000'' \<and> normalized_candidates [''#ffffff'', ''#000000''] \<noteq> []
   \<and> first_occurrences (normalized_candidates [''#ffffff'', ''#000000''])
        = [] @ ''#ffffff'' # [''#000000'']
   \<and> best_contrast_text ''#000000'' [''#ffffff'', ''#000000''] = Some ''#ffffff''
   \<and> contrast_of ''#000000'' ''#000000'' \<le> contrast_of ''#000000'' ''#ffffff''
   \<and> normalized_candidates [''white''] = []
   \<and> best_contrast_text ''#000000'' [''white''] = Some ''#ffffff''"
proof -
  have n: "normalize_hex ''#ffffff'' = Some ''#ffffff''" "normalize_hex ''#000000'' = Some ''#000000''"
    by (simp_all add: normalize_hex_canonical canonical_constants)
  have nc: "normalized_candidates [''#ffffff'', ''#000000''] = [''#ffffff'', ''#000000'']"
    by (simp add: normalized_candidates_def n)
  have fo: "first_occurrences [''#ffffff'', ''#000000''] = [''#ffffff'', ''#000000'']"
    by (simp add: first_occurrences_def)
  have w: "normalize_hex ''white'' = None" by code_simp
  have nw: "normalized_candidates [''white''] = []"
    by (simp add: normalized_candidates_def w)
  have co: "contrast_of ''#000000'' ''#000000'' = 1" "contrast_of ''#000000'' ''#ffffff'' = 21"
    by (simp_all add: contrast_of_def contrast_black_black contrast_black_white)
  from best_contrast_text_picks_first_maximum[of "[''#ffffff'', ''#000000'']" "''#000000''"]
    best_contrast_text_picks_first_maximum[of "[''white'']" "''#000000''"]
  show ?thesis
    by (simp add: nc fo nw co canonical_constants)
qed

text \<open>
  C2. For every dictionary that \<open>load_ghostty_config\<close> can return (every colour in it is
  canonical), \<open>build_starship_palette\<close> does not raise and returns a dictionary with exactly
  the nineteen keys, each once, whose values are all canonical colours \<open>#rrggbb\<close>.
\<close>

theorem build_starship_palette_complete:
  assumes "valid_parsed parsed"
  shows "\<exists>m. build_starship_palette parsed = Some m
           \<and> map fst m = [''color_fg0'', ''color_bg1'', ''color_bg3'', ''color_on_bg1'',
                ''color_on_bg3'', ''color_on_blue'', ''color_on_aqua'', ''color_on_green'',
                ''color_on_orange'', ''color_on_purple'', ''color_on_red'', ''color_on_yellow'',
                ''color_blue'', ''color_aqua'', ''color_green'', ''color_orange'',
                ''color_purple'', ''color_red'', ''color_yellow'']
           \<and> length m = 19 \<and> distinct (map fst m)
           \<and> list_all canonical (map snd m)"
proof -
  from build_starship_palette_valid[OF assms] obtain i a m where
    m: "build_starship_palette parsed = Some m" "output_of i a m" by blast
  then have k: "map fst m = slot_names" and c: "list_all canonical (map snd m)"
    by (simp_all add: output_of_def list_all_iff)
  have d: "distinct slot_names" by code_simp
  have "length (map fst m) = 19" unfolding k by (simp add: slot_names_def)
  then have "length m = 19" by simp
  with m(1) k c d show ?thesis by (simp add: slot_names_def)
qed

theorem build_starship_palette_complete_witness:
  "valid_parsed \<lparr>cfg_palette = Map.empty, cfg_foreground = None, cfg_background = None,
                 cfg_selection_background = None\<rparr>
   \<and> (\<exists>m. build_starship_palette \<lparr>cfg_palette = Map.empty, cfg_foreground = None,
              cfg_background = None, cfg_selection_background = None\<rparr> = Some m
          \<and> length m = 19)"
proof -
  have v: "valid_parsed \<lparr>cfg_palette = Map.empty, cfg_foreground = None, cfg_background = None,
                 cfg_selection_background = None\<rparr>"
    by (simp add: valid_parsed_def)
  from build_starship_palette_complete[OF v] v show ?thesis by blast
qed

lemma channel_to_linear_lower:
  assumes "11 \<le> n" "0 \<le> c" "c ^ 5 \<le> ((of_int n / 255 + 0.055) / 1.055) ^ 12"
  shows "c \<le> channel_to_linear n"
proof -
  let ?x = "(of_int n / 255 + 0.055) / (1.055::real)"
  have x: "0 < ?x" using assms(1) by simp
  have "c ^ 5 \<le> (?x powr 2.4) ^ 5" using assms(3) by (simp only: powr_24_pow5[OF x])
  moreover have "0 \<le> ?x powr 2.4" by simp
  ultimately have "c \<le> ?x powr 2.4"
    by (meson not_le power_strict_mono zero_less_numeral)
  then show ?thesis by (simp only: channel_to_linear_high[OF assms(1)])
qed

lemma channel_to_linear_upper:
  assumes "11 \<le> n" "0 \<le> c" "((of_int n / 255 + 0.055) / 1.055) ^ 12 \<le> c ^ 5"
  shows "channel_to_linear n \<le> c"
proof -
  let ?x = "(of_int n / 255 + 0.055) / (1.055::real)"
  have x: "0 < ?x" using assms(1) by simp
  have "(?x powr 2.4) ^ 5 \<le> c ^ 5" using assms(3) by (simp only: powr_24_pow5[OF x])
  then have "?x powr 2.4 \<le> c"
    using assms(2) by (meson not_le power_strict_mono zero_less_numeral)
  then show ?thesis by (simp only: channel_to_linear_high[OF assms(1)])
qed

lemma build_slots:
  assumes "valid_parsed p"
  shows "\<exists>i a. palette_inputs p = Some i
      \<and> dark_theme_corrections (in_background i) (in_accents i) = Some a
      \<and> palette_slot (build_starship_palette p) ''color_fg0'' = Some (in_foreground i)
      \<and> palette_slot (build_starship_palette p) ''color_bg1'' = Some (in_background i)
      \<and> palette_slot (build_starship_palette p) ''color_bg3'' = Some (in_selection_background i)
      \<and> palette_slot (build_starship_palette p) ''color_red'' = Some (red a)
      \<and> palette_slot (build_starship_palette p) ''color_green'' = Some (green a)
      \<and> palette_slot (build_starship_palette p) ''color_yellow'' = Some (yellow a)
      \<and> palette_slot (build_starship_palette p) ''color_blue'' = Some (blue a)
      \<and> palette_slot (build_starship_palette p) ''color_purple'' = Some (purple a)
      \<and> palette_slot (build_starship_palette p) ''color_aqua'' = Some (aqua a)
      \<and> palette_slot (build_starship_palette p) ''color_orange'' = Some (orange a)"
proof -
  from build_starship_palette_valid[OF assms] obtain i a m where
    "palette_inputs p = Some i" "dark_theme_corrections (in_background i) (in_accents i) = Some a"
    "build_starship_palette p = Some m" "output_of i a m" by blast
  then show ?thesis
    by (intro exI[of _ i] exI[of _ a]) (simp add: palette_slot_def output_of_def)
qed

lemma canonical_inputs:
  assumes "valid_parsed p" "palette_inputs p = Some i"
  shows "canonical (in_background i)" "canonical_accents (in_accents i)"
  using palette_inputs_valid[OF assms(1)] assms(2) by auto

lemma hex_to_rgb_fbf1c7: "hex_to_rgb ''#fbf1c7'' = Some (251, 241, 199)"
  by code_simp

lemma luminance_fbf1c7:
  "\<not> luminance_of (channel_to_linear 251) (channel_to_linear 241) (channel_to_linear 199)
       < DARK_BACKGROUND_LUMINANCE_THRESHOLD"
proof -
  have "(1 / 2 :: real) \<le> channel_to_linear 241"
    by (rule channel_to_linear_lower) (simp_all add: power_divide)
  moreover have "0 \<le> channel_to_linear 251" "0 \<le> channel_to_linear 199"
    by (simp_all add: channel_to_linear_range byte_def)
  ultimately show ?thesis
    by (simp add: luminance_of_def DARK_BACKGROUND_LUMINANCE_THRESHOLD_def)
qed

text \<open>
  C4. The corrections run exactly when the relative luminance of the background is strictly
  below the threshold 0.26. At or above it, the seven accents of the returned dictionary are
  the values from before the corrections; below it, each is its value put through the three
  corrections.
\<close>

theorem light_theme_accents_unchanged:
  assumes "valid_parsed parsed" and "palette_inputs parsed = Some i"
    and "relative_luminance (in_background i) = Some l"
  shows "DARK_BACKGROUND_LUMINANCE_THRESHOLD = 0.26
    \<and> (if l < DARK_BACKGROUND_LUMINANCE_THRESHOLD
        then palette_slot (build_starship_palette parsed) ''color_red''
               = correct_accent (in_background i) l (red (in_accents i))
           \<and> palette_slot (build_starship_palette parsed) ''color_green''
               = correct_accent (in_background i) l (green (in_accents i))
           \<and> palette_slot (build_starship_palette parsed) ''color_yellow''
               = correct_accent (in_background i) l (yellow (in_accents i))
           \<and> palette_slot (build_starship_palette parsed) ''color_blue''
               = correct_accent (in_background i) l (blue (in_accents i))
           \<and> palette_slot (build_starship_palette parsed) ''color_purple''
               = correct_accent (in_background i) l (purple (in_accents i))
           \<and> palette_slot (build_starship_palette parsed) ''color_aqua''
               = correct_accent (in_background i) l (aqua (in_accents i))
           \<and> palette_slot (build_starship_palette parsed) ''color_orange''
               = correct_accent (in_background i) l (orange (in_accents i))
        else palette_slot (build_starship_palette parsed) ''color_red'' = Some (red (in_accents i))
           \<and> palette_slot (build_starship_palette parsed) ''color_green''
               = Some (green (in_accents i))
           \<and> palette_slot (build_starship_palette parsed) ''color_yellow''
               = Some (yellow (in_accents i))
           \<and> palette_slot (build_starship_palette parsed) ''color_blue''
               = Some (blue (in_accents i))
           \<and> palette_slot (build_starship_palette parsed) ''color_purple''
               = Some (purple (in_accents i))
           \<and> palette_slot (build_starship_palette parsed) ''color_aqua''
               = Some (aqua (in_accents i))
           \<and> palette_slot (build_starship_palette parsed) ''color_orange''
               = Some (orange (in_accents i)))"
proof -
  from build_slots[OF assms(1)] assms(2) obtain a where
    a: "dark_theme_corrections (in_background i) (in_accents i) = Some a"
    and s: "palette_slot (build_starship_palette parsed) ''color_red'' = Some (red a)"
      "palette_slot (build_starship_palette parsed) ''color_green'' = Some (green a)"
      "palette_slot (build_starship_palette parsed) ''color_yellow'' = Some (yellow a)"
      "palette_slot (build_starship_palette parsed) ''color_blue'' = Some (blue a)"
      "palette_slot (build_starship_palette parsed) ''color_purple'' = Some (purple a)"
      "palette_slot (build_starship_palette parsed) ''color_aqua'' = Some (aqua a)"
      "palette_slot (build_starship_palette parsed) ''color_orange'' = Some (orange a)"
    by auto
  note ci = canonical_inputs[OF assms(1,2)]
  show ?thesis
  proof (cases "l < DARK_BACKGROUND_LUMINANCE_THRESHOLD")
    case False
    from dark_theme_corrections_light[OF assms(3) False, of "in_accents i"] a
    have "a = in_accents i" by simp
    with s False show ?thesis by (simp add: DARK_BACKGROUND_LUMINANCE_THRESHOLD_def)
  next
    case True
    note c = correct_accent_canonical[OF _ ci(1), of _ l]
    from ci(2) c[of "red (in_accents i)"] c[of "green (in_accents i)"]
      c[of "yellow (in_accents i)"] c[of "blue (in_accents i)"] c[of "purple (in_accents i)"]
      c[of "aqua (in_accents i)"] c[of "orange (in_accents i)"]
    obtain r' g' y' b' p' q' o' where e:
      "correct_accent (in_background i) l (red (in_accents i)) = Some r'"
      "correct_accent (in_background i) l (green (in_accents i)) = Some g'"
      "correct_accent (in_background i) l (yellow (in_accents i)) = Some y'"
      "correct_accent (in_background i) l (blue (in_accents i)) = Some b'"
      "correct_accent (in_background i) l (purple (in_accents i)) = Some p'"
      "correct_accent (in_background i) l (aqua (in_accents i)) = Some q'"
      "correct_accent (in_background i) l (orange (in_accents i)) = Some o'"
      unfolding canonical_accents_def by blast
    from dark_theme_corrections_dark[OF assms(3) True e] a
    have "a = \<lparr>red = r', green = g', yellow = y', blue = b', purple = p', aqua = q',
               orange = o'\<rparr>" by simp
    with s e True show ?thesis by (simp add: DARK_BACKGROUND_LUMINANCE_THRESHOLD_def)
  qed
qed

theorem light_theme_accents_unchanged_witness:
  "valid_parsed \<lparr>cfg_palette = Map.empty, cfg_foreground = None,
      cfg_background = Some ''#fbf1c7'', cfg_selection_background = None\<rparr>
   \<and> palette_inputs \<lparr>cfg_palette = Map.empty, cfg_foreground = None,
      cfg_background = Some ''#fbf1c7'', cfg_selection_background = None\<rparr>
     = Some \<lparr>in_foreground = ''#fbf1c7'', in_background = ''#fbf1c7'',
         in_selection_background = ''#fbf1c7'',
         in_accents = \<lparr>red = ''#cc241d'', green = ''#98971a'', yellow = ''#d79921'',
           blue = ''#458588'', purple = ''#b16286'', aqua = ''#689d6a'', orange = ''#d25e1f''\<rparr>\<rparr>
   \<and> relative_luminance ''#fbf1c7''
     = Some (luminance_of (channel_to_linear 251) (channel_to_linear 241) (channel_to_linear 199))
   \<and> \<not> luminance_of (channel_to_linear 251) (channel_to_linear 241) (channel_to_linear 199)
         < DARK_BACKGROUND_LUMINANCE_THRESHOLD
   \<and> palette_slot (build_starship_palette \<lparr>cfg_palette = Map.empty, cfg_foreground = None,
        cfg_background = Some ''#fbf1c7'', cfg_selection_background = None\<rparr>) ''color_red''
     = Some ''#cc241d''
   \<and> palette_slot (build_starship_palette \<lparr>cfg_palette = Map.empty, cfg_foreground = None,
        cfg_background = Some ''#fbf1c7'', cfg_selection_background = None\<rparr>) ''color_orange''
     = Some ''#d25e1f''"
proof -
  let ?p = "\<lparr>cfg_palette = Map.empty, cfg_foreground = None,
      cfg_background = Some ''#fbf1c7'', cfg_selection_background = None\<rparr>"
  let ?i = "\<lparr>in_foreground = ''#fbf1c7'', in_background = ''#fbf1c7'',
         in_selection_background = ''#fbf1c7'',
         in_accents = \<lparr>red = ''#cc241d'', green = ''#98971a'', yellow = ''#d79921'',
           blue = ''#458588'', purple = ''#b16286'', aqua = ''#689d6a'', orange = ''#d25e1f''\<rparr>\<rparr>"
  have v: "valid_parsed ?p" by (simp add: valid_parsed_def canonical_constants)
  have b1: "blend ''#cc241d'' ''#d79921'' 0.5 = Some ''#d25e1f''" by code_simp
  have b2: "blend ''#fbf1c7'' ''#fbf1c7'' 0.25 = Some ''#fbf1c7''" by code_simp
  have i: "palette_inputs ?p = Some ?i"
    using b1 b2 by (simp add: palette_inputs_def py_or_def Let_def)
  have l: "relative_luminance (in_background ?i)
     = Some (luminance_of (channel_to_linear 251) (channel_to_linear 241) (channel_to_linear 199))"
    by (simp add: relative_luminance_def hex_to_rgb_fbf1c7)
  from light_theme_accents_unchanged[OF v i l] luminance_fbf1c7 v i l
  show ?thesis by simp
qed

text \<open>
  C6 (as amended). When the dictionary has neither a foreground nor palette slot 7, the
  foreground is \<open>#fbf1c7\<close>; with neither a background nor slot 0, the background is
  \<open>#3c3836\<close>; an absent accent slot 1 to 6 is replaced by its constant. An absent selection
  background (no named colour, no slot 8) is not a constant: it is
  \<open>blend(background, foreground, 0.25)\<close>. The three surface colours are returned as resolved.
\<close>

theorem absent_slot_fallbacks:
  assumes "valid_parsed parsed" and "palette_inputs parsed = Some i"
  shows "(cfg_foreground parsed = None \<and> cfg_palette parsed 7 = None
            \<longrightarrow> in_foreground i = ''#fbf1c7'')
    \<and> (cfg_background parsed = None \<and> cfg_palette parsed 0 = None
            \<longrightarrow> in_background i = ''#3c3836'')
    \<and> (cfg_palette parsed 1 = None \<longrightarrow> red (in_accents i) = ''#cc241d'')
    \<and> (cfg_palette parsed 2 = None \<longrightarrow> green (in_accents i) = ''#98971a'')
    \<and> (cfg_palette parsed 3 = None \<longrightarrow> yellow (in_accents i) = ''#d79921'')
    \<and> (cfg_palette parsed 4 = None \<longrightarrow> blue (in_accents i) = ''#458588'')
    \<and> (cfg_palette parsed 5 = None \<longrightarrow> purple (in_accents i) = ''#b16286'')
    \<and> (cfg_palette parsed 6 = None \<longrightarrow> aqua (in_accents i) = ''#689d6a'')
    \<and> (cfg_selection_background parsed = None \<and> cfg_palette parsed 8 = None
            \<longrightarrow> blend (in_background i) (in_foreground i) 0.25
                  = Some (in_selection_background i))
    \<and> palette_slot (build_starship_palette parsed) ''color_fg0'' = Some (in_foreground i)
    \<and> palette_slot (build_starship_palette parsed) ''color_bg1'' = Some (in_background i)
    \<and> palette_slot (build_starship_palette parsed) ''color_bg3''
          = Some (in_selection_background i)"
proof -
  from palette_inputs_valid[OF assms(1)] assms(2)
  have "(cfg_foreground parsed = None \<and> cfg_palette parsed 7 = None
            \<longrightarrow> in_foreground i = ''#fbf1c7'')
    \<and> (cfg_background parsed = None \<and> cfg_palette parsed 0 = None
            \<longrightarrow> in_background i = ''#3c3836'')
    \<and> (cfg_palette parsed 1 = None \<longrightarrow> red (in_accents i) = ''#cc241d'')
    \<and> (cfg_palette parsed 2 = None \<longrightarrow> green (in_accents i) = ''#98971a'')
    \<and> (cfg_palette parsed 3 = None \<longrightarrow> yellow (in_accents i) = ''#d79921'')
    \<and> (cfg_palette parsed 4 = None \<longrightarrow> blue (in_accents i) = ''#458588'')
    \<and> (cfg_palette parsed 5 = None \<longrightarrow> purple (in_accents i) = ''#b16286'')
    \<and> (cfg_palette parsed 6 = None \<longrightarrow> aqua (in_accents i) = ''#689d6a'')
    \<and> (cfg_selection_background parsed = None \<and> cfg_palette parsed 8 = None
            \<longrightarrow> blend (in_background i) (in_foreground i) 0.25
                  = Some (in_selection_background i))"
    by (auto simp: py_or_absent)
  moreover from build_slots[OF assms(1)] assms(2)
  have "palette_slot (build_starship_palette parsed) ''color_fg0'' = Some (in_foreground i)
    \<and> palette_slot (build_starship_palette parsed) ''color_bg1'' = Some (in_background i)
    \<and> palette_slot (build_starship_palette parsed) ''color_bg3''
          = Some (in_selection_background i)"
    by auto
  ultimately show ?thesis by blast
qed

theorem absent_slot_fallbacks_witness:
  "valid_parsed \<lparr>cfg_palette = Map.empty, cfg_foreground = None, cfg_background = None,
      cfg_selection_background = None\<rparr>
   \<and> palette_inputs \<lparr>cfg_palette = Map.empty, cfg_foreground = None, cfg_background = None,
      cfg_selection_background = None\<rparr>
     = Some \<lparr>in_foreground = ''#fbf1c7'', in_background = ''#3c3836'',
         in_selection_background = ''#6c665a'',
         in_accents = \<lparr>red = ''#cc241d'', green = ''#98971a'', yellow = ''#d79921'',
           blue = ''#458588'', purple = ''#b16286'', aqua = ''#689d6a'', orange = ''#d25e1f''\<rparr>\<rparr>
   \<and> blend ''#3c3836'' ''#fbf1c7'' 0.25 = Some ''#6c665a''
   \<and> palette_slot (build_starship_palette \<lparr>cfg_palette = Map.empty, cfg_foreground = None,
        cfg_background = None, cfg_selection_background = None\<rparr>) ''color_fg0''
     = Some ''#fbf1c7''
   \<and> palette_slot (build_starship_palette \<lparr>cfg_palette = Map.empty, cfg_foreground = None,
        cfg_background = None, cfg_selection_background = None\<rparr>) ''color_bg1''
     = Some ''#3c3836''
   \<and> palette_slot (build_starship_palette \<lparr>cfg_palette = Map.empty, cfg_foreground = None,
        cfg_background = None, cfg_selection_background = None\<rparr>) ''color_bg3''
     = Some ''#6c665a''"
proof -
  let ?p = "\<lparr>cfg_palette = Map.empty, cfg_foreground = None, cfg_background = None,
      cfg_selection_background = None\<rparr>"
  have v: "valid_parsed ?p" by (simp add: valid_parsed_def)
  have b1: "blend ''#cc241d'' ''#d79921'' 0.5 = Some ''#d25e1f''" by code_simp
  have b2: "blend ''#3c3836'' ''#fbf1c7'' 0.25 = Some ''#6c665a''" by code_simp
  have i: "palette_inputs ?p = Some \<lparr>in_foreground = ''#fbf1c7'', in_background = ''#3c3836'',
         in_selection_background = ''#6c665a'',
         in_accents = \<lparr>red = ''#cc241d'', green = ''#98971a'', yellow = ''#d79921'',
           blue = ''#458588'', purple = ''#b16286'', aqua = ''#689d6a'', orange = ''#d25e1f''\<rparr>\<rparr>"
    using b1 b2 by (simp add: palette_inputs_def py_or_def Let_def)
  from absent_slot_fallbacks[OF v i] v i b2 show ?thesis by simp
qed

theorem absent_selection_background_not_constant:
  "cfg_selection_background \<lparr>cfg_palette = Map.empty, cfg_foreground = None,
        cfg_background = None, cfg_selection_background = None\<rparr> = None
   \<and> cfg_selection_background \<lparr>cfg_palette = Map.empty, cfg_foreground = None,
        cfg_background = Some ''#ffffff'', cfg_selection_background = None\<rparr> = None
   \<and> palette_slot (build_starship_palette \<lparr>cfg_palette = Map.empty, cfg_foreground = None,
        cfg_background = None, cfg_selection_background = None\<rparr>) ''color_bg3''
     = Some ''#6c665a''
   \<and> palette_slot (build_starship_palette \<lparr>cfg_palette = Map.empty, cfg_foreground = None,
        cfg_background = Some ''#ffffff'', cfg_selection_background = None\<rparr>) ''color_bg3''
     = Some ''#fefcf1''"
proof -
  let ?p = "\<lparr>cfg_palette = Map.empty, cfg_foreground = None, cfg_background = None,
      cfg_selection_background = None\<rparr>"
  let ?q = "\<lparr>cfg_palette = Map.empty, cfg_foreground = None,
      cfg_background = Some ''#ffffff'', cfg_selection_background = None\<rparr>"
  have v: "valid_parsed ?p" "valid_parsed ?q" by (simp_all add: valid_parsed_def canonical_constants)
  have b1: "blend ''#cc241d'' ''#d79921'' 0.5 = Some ''#d25e1f''" by code_simp
  have b2: "blend ''#3c3836'' ''#fbf1c7'' 0.25 = Some ''#6c665a''" by code_simp
  have b3: "blend ''#ffffff'' ''#fbf1c7'' 0.25 = Some ''#fefcf1''" by code_simp
  have "\<exists>i. palette_inputs ?p = Some i \<and> in_selection_background i = ''#6c665a''"
    using b1 b2 by (simp add: palette_inputs_def py_or_def Let_def)
  with build_slots[OF v(1)]
  have 1: "palette_slot (build_starship_palette ?p) ''color_bg3'' = Some ''#6c665a''" by auto
  have "\<exists>i. palette_inputs ?q = Some i \<and> in_selection_background i = ''#fefcf1''"
    using b1 b3 by (simp add: palette_inputs_def py_or_def Let_def)
  with build_slots[OF v(2)]
  have 2: "palette_slot (build_starship_palette ?q) ''color_bg3'' = Some ''#fefcf1''" by auto
  from 1 2 show ?thesis by simp
qed

section \<open>Saturation boost\<close>

lemma linear_to_channel_high:
  assumes v: "0.0031308 < v" "v \<le> 1" and n: "0 \<le> n"
    and lo: "(((of_int n - 1 / 2) / 255 + 0.055) / 1.055) ^ 12 < v ^ 5"
    and hi: "v ^ 5 < (((of_int n + 1 / 2) / 255 + 0.055) / 1.055) ^ 12"
  shows "linear_to_channel v = n"
proof -
  let ?a = "((of_int n - 1 / 2) / 255 + 0.055) / (1.055::real)"
  let ?b = "((of_int n + 1 / 2) / 255 + 0.055) / (1.055::real)"
  define p where "p = v powr (1 / 2.4)"
  have pos: "0 < v" using v(1) by simp
  have p12: "p ^ 12 = v ^ 5" unfolding p_def by (rule powr_inv24_pow12[OF pos])
  have p0: "0 \<le> p" by (simp add: p_def)
  have b0: "0 \<le> ?b" using n by simp
  have "?a ^ 12 < p ^ 12" using lo by (simp only: p12)
  then have a: "?a < p" using p0 by (rule power_less_imp_less_base)
  have "p ^ 12 < ?b ^ 12" using hi by (simp only: p12)
  then have b: "p < ?b" using b0 by (rule power_less_imp_less_base)
  have m: "max 0 (min 1 v) = v" using v by simp
  have l: "linear_to_channel v = py_round ((1.055 * p - 0.055) * 255)"
    unfolding linear_to_channel_def Let_def m p_def using v(1) by simp
  have "of_int n - 1 / 2 < (1.055 * p - 0.055) * 255" using a by (simp add: field_simps)
  moreover have "(1.055 * p - 0.055) * 255 < of_int n + 1 / 2" using b by (simp add: field_simps)
  ultimately show ?thesis unfolding l by (rule py_round_unique)
qed

lemma linear_to_channel_low:
  assumes "0 \<le> v" "v \<le> 0.0031308"
    and "of_int n - 1 / 2 < v * 12.92 * 255" "v * 12.92 * 255 < of_int n + 1 / 2"
  shows "linear_to_channel v = n"
proof -
  have m: "max 0 (min 1 v) = v" using assms(1,2) by simp
  have "linear_to_channel v = py_round (v * 12.92 * 255)"
    unfolding linear_to_channel_def Let_def m using assms(2) by simp
  then show ?thesis using py_round_unique[OF assms(3,4)] by simp
qed

lemma transform_gray: "transform c c c c k = (c, c, c)"
  by (simp add: transform_def)

lemma boost_gray:
  assumes "byte n"
  shows "boost_saturation_preserve_luminance (rgb_to_hex (n, n, n)) f = Some (rgb_to_hex (n, n, n))"
  by (simp add: boost_saturation_preserve_luminance_def hex_to_rgb_rgb_to_hex[OF assms assms assms]
      luminance_of_gray transform_gray channel_roundtrip[OF assms])

lemma relative_luminance_gray:
  assumes "byte n"
  shows "relative_luminance (rgb_to_hex (n, n, n)) = Some (channel_to_linear n)"
  by (simp add: relative_luminance_def hex_to_rgb_rgb_to_hex[OF assms assms assms]
      luminance_of_gray)

section \<open>Orange\<close>

lemma accent_slots:
  assumes "valid_parsed parsed" and "palette_inputs parsed = Some i"
    and "relative_luminance (in_background i) = Some l"
  shows "l < DARK_BACKGROUND_LUMINANCE_THRESHOLD \<Longrightarrow>
      palette_slot (build_starship_palette parsed) ''color_red''
               = correct_accent (in_background i) l (red (in_accents i))
           \<and> palette_slot (build_starship_palette parsed) ''color_yellow''
               = correct_accent (in_background i) l (yellow (in_accents i))
           \<and> palette_slot (build_starship_palette parsed) ''color_orange''
               = correct_accent (in_background i) l (orange (in_accents i))"
    and "\<not> l < DARK_BACKGROUND_LUMINANCE_THRESHOLD \<Longrightarrow>
      palette_slot (build_starship_palette parsed) ''color_red'' = Some (red (in_accents i))
           \<and> palette_slot (build_starship_palette parsed) ''color_yellow''
               = Some (yellow (in_accents i))
           \<and> palette_slot (build_starship_palette parsed) ''color_orange''
               = Some (orange (in_accents i))"
proof -
  from build_slots[OF assms(1)] assms(2) obtain a where
    a: "dark_theme_corrections (in_background i) (in_accents i) = Some a"
    and s: "palette_slot (build_starship_palette parsed) ''color_red'' = Some (red a)"
      "palette_slot (build_starship_palette parsed) ''color_yellow'' = Some (yellow a)"
      "palette_slot (build_starship_palette parsed) ''color_orange'' = Some (orange a)"
    by auto
  note ci = canonical_inputs[OF assms(1,2)]
  {
    assume False: "\<not> l < DARK_BACKGROUND_LUMINANCE_THRESHOLD"
    from dark_theme_corrections_light[OF assms(3) False, of "in_accents i"] a
    have "a = in_accents i" by simp
    with s show "palette_slot (build_starship_palette parsed) ''color_red'' = Some (red (in_accents i))
           \<and> palette_slot (build_starship_palette parsed) ''color_yellow''
               = Some (yellow (in_accents i))
           \<and> palette_slot (build_starship_palette parsed) ''color_orange''
               = Some (orange (in_accents i))" by simp
  }
  {
    assume True: "l < DARK_BACKGROUND_LUMINANCE_THRESHOLD"
    note c = correct_accent_canonical[OF _ ci(1), of _ l]
    from ci(2) c[of "red (in_accents i)"] c[of "green (in_accents i)"]
      c[of "yellow (in_accents i)"] c[of "blue (in_accents i)"] c[of "purple (in_accents i)"]
      c[of "aqua (in_accents i)"] c[of "orange (in_accents i)"]
    obtain r' g' y' b' p' q' o' where e:
      "correct_accent (in_background i) l (red (in_accents i)) = Some r'"
      "correct_accent (in_background i) l (green (in_accents i)) = Some g'"
      "correct_accent (in_background i) l (yellow (in_accents i)) = Some y'"
      "correct_accent (in_background i) l (blue (in_accents i)) = Some b'"
      "correct_accent (in_background i) l (purple (in_accents i)) = Some p'"
      "correct_accent (in_background i) l (aqua (in_accents i)) = Some q'"
      "correct_accent (in_background i) l (orange (in_accents i)) = Some o'"
      unfolding canonical_accents_def by blast
    from dark_theme_corrections_dark[OF assms(3) True e] a
    have "a = \<lparr>red = r', green = g', yellow = y', blue = b', purple = p', aqua = q',
               orange = o'\<rparr>" by simp
    with s e show "palette_slot (build_starship_palette parsed) ''color_red''
               = correct_accent (in_background i) l (red (in_accents i))
           \<and> palette_slot (build_starship_palette parsed) ''color_yellow''
               = correct_accent (in_background i) l (yellow (in_accents i))
           \<and> palette_slot (build_starship_palette parsed) ''color_orange''
               = correct_accent (in_background i) l (orange (in_accents i))" by simp
  }
qed

lemma rgb_to_hex_grays:
  "rgb_to_hex (255, 255, 255) = ''#ffffff''" "rgb_to_hex (0, 0, 0) = ''#000000''"
  "rgb_to_hex (128, 128, 128) = ''#808080''" "rgb_to_hex (196, 196, 196) = ''#c4c4c4''"
  by code_simp+

lemma linear_to_channel_055: "linear_to_channel 0.55 = 196"
  by (rule linear_to_channel_high) (simp_all add: power_divide)

lemma channel_to_linear_196: "1 / 8 \<le> channel_to_linear 196"
  by (rule channel_to_linear_lower) (simp_all add: power_divide)

lemma channel_to_linear_128_lower: "1 / 8 \<le> channel_to_linear 128"
  by (rule channel_to_linear_lower) (simp_all add: power_divide)

lemma channel_to_linear_128_upper: "channel_to_linear 128 \<le> 0.55"
  by (rule channel_to_linear_upper) (simp_all add: power_divide)

lemma contrast_gray_black:
  assumes "byte n"
  shows "contrast_ratio (rgb_to_hex (n, n, n)) ''#000000''
     = Some ((channel_to_linear n + 0.05) / 0.05)"
  using channel_to_linear_range(1)[OF assms]
  by (simp add: contrast_ratio_def relative_luminance_gray[OF assms] relative_luminance_black
      max_def min_def)

lemma correct_accent_mid_gray:
  assumes "byte n" "1 / 8 \<le> channel_to_linear n" "channel_to_linear n \<le> 0.55"
  shows "correct_accent ''#000000'' 0 (rgb_to_hex (n, n, n)) = Some (rgb_to_hex (n, n, n))"
proof -
  have c: "clamp_lum (rgb_to_hex (n, n, n)) = Some (rgb_to_hex (n, n, n))"
    using assms(3)
    by (simp add: clamp_lum_def relative_luminance_gray[OF assms(1)] DARK_ACCENT_MAX_LUMINANCE_def)
  have e: "ensure_contrast ''#000000'' 0 (rgb_to_hex (n, n, n)) = Some (rgb_to_hex (n, n, n))"
    using assms(2)
    by (simp add: ensure_contrast_def contrast_gray_black[OF assms(1)]
        DARK_ACCENT_MIN_CONTRAST_def)
  show ?thesis by (simp add: correct_accent_def boost_gray[OF assms(1)] c e)
qed

lemma correct_accent_white: "correct_accent ''#000000'' 0 ''#ffffff'' = Some ''#c4c4c4''"
proof -
  have b: "byte 255" "byte 196" by (simp_all add: byte_def)
  have bo: "boost_saturation_preserve_luminance ''#ffffff'' DARK_THEME_SATURATION_BOOST
      = Some ''#ffffff''"
    using boost_gray[OF b(1)] by (simp add: rgb_to_hex_grays)
  have nb: "\<not> luminance_of (channel_to_linear 255) (channel_to_linear 255)
      (channel_to_linear 255) < 0.001"
    by (simp add: channel_to_linear_255 luminance_of_gray)
  have sl: "scale_linear (channel_to_linear 255) (channel_to_linear 255) (channel_to_linear 255)
      (luminance_of (channel_to_linear 255) (channel_to_linear 255) (channel_to_linear 255)) 0.55
      = (0.55, 0.55, 0.55)"
    by (simp add: channel_to_linear_255 luminance_of_gray scale_linear_def Let_def)
  have sc: "scale_luminance ''#ffffff'' 0.55 = Some ''#c4c4c4''"
    using scale_luminance_unfold[OF hex_to_rgb_white nb sl]
    by (simp only: linear_to_channel_055 rgb_to_hex_grays)
  have c: "clamp_lum ''#ffffff'' = Some ''#c4c4c4''"
    using sc by (simp add: clamp_lum_def relative_luminance_white DARK_ACCENT_MAX_LUMINANCE_def)
  have e: "ensure_contrast ''#000000'' 0 ''#c4c4c4'' = Some ''#c4c4c4''"
    using contrast_gray_black[OF b(2)] channel_to_linear_196
    by (simp add: ensure_contrast_def rgb_to_hex_grays DARK_ACCENT_MIN_CONTRAST_def)
  show ?thesis by (simp add: correct_accent_def bo c e)
qed

lemma correct_accent_black: "correct_accent ''#000000'' 0 ''#000000'' = Some ''#000000''"
proof -
  have b: "byte 0" by (simp add: byte_def)
  have bo: "boost_saturation_preserve_luminance ''#000000'' DARK_THEME_SATURATION_BOOST
      = Some ''#000000''"
    using boost_gray[OF b] by (simp add: rgb_to_hex_grays)
  have c: "clamp_lum ''#000000'' = Some ''#000000''"
    by (simp add: clamp_lum_def relative_luminance_black DARK_ACCENT_MAX_LUMINANCE_def)
  have sc: "scale_luminance ''#000000'' t = Some ''#000000''" for t
    by (simp add: scale_luminance_def hex_to_rgb_black channel_to_linear_0 luminance_of_gray)
  have e: "ensure_contrast ''#000000'' 0 ''#000000'' = Some ''#000000''"
    by (simp add: ensure_contrast_def contrast_black_black DARK_ACCENT_MIN_CONTRAST_def sc Let_def)
  show ?thesis by (simp add: correct_accent_def bo c e)
qed

lemma correct_accent_808080: "correct_accent ''#000000'' 0 ''#808080'' = Some ''#808080''"
  using correct_accent_mid_gray[OF _ channel_to_linear_128_lower channel_to_linear_128_upper]
  by (simp add: byte_def rgb_to_hex_grays)

text \<open>
  C1 (as amended). Orange is never read from the input: before the corrections it is
  \<open>blend(red, yellow, 0.5)\<close> of the red and yellow resolved from palette slots 1 and 3 (or
  their constants). On a background at or above the threshold this is the returned orange,
  and it equals the blend of the returned red and yellow. On a darker background the returned
  orange is that blended value put through the three corrections itself; it is not blended
  again from the corrected red and yellow.
\<close>

theorem orange_blended_before_corrections:
  assumes "valid_parsed parsed" and "palette_inputs parsed = Some i"
    and "relative_luminance (in_background i) = Some l"
  shows "red (in_accents i) = py_or (cfg_palette parsed 1) ''#cc241d''
    \<and> yellow (in_accents i) = py_or (cfg_palette parsed 3) ''#d79921''
    \<and> blend (red (in_accents i)) (yellow (in_accents i)) 0.5 = Some (orange (in_accents i))
    \<and> (if l < DARK_BACKGROUND_LUMINANCE_THRESHOLD
        then palette_slot (build_starship_palette parsed) ''color_orange''
               = correct_accent (in_background i) l (orange (in_accents i))
        else palette_slot (build_starship_palette parsed) ''color_orange''
               = Some (orange (in_accents i))
           \<and> palette_slot (build_starship_palette parsed) ''color_red''
               = Some (red (in_accents i))
           \<and> palette_slot (build_starship_palette parsed) ''color_yellow''
               = Some (yellow (in_accents i)))"
proof -
  from palette_inputs_valid[OF assms(1)] assms(2)
  have 1: "red (in_accents i) = py_or (cfg_palette parsed 1) ''#cc241d''
    \<and> yellow (in_accents i) = py_or (cfg_palette parsed 3) ''#d79921''
    \<and> blend (red (in_accents i)) (yellow (in_accents i)) 0.5 = Some (orange (in_accents i))"
    by auto
  have 2: "(if l < DARK_BACKGROUND_LUMINANCE_THRESHOLD
        then palette_slot (build_starship_palette parsed) ''color_orange''
               = correct_accent (in_background i) l (orange (in_accents i))
        else palette_slot (build_starship_palette parsed) ''color_orange''
               = Some (orange (in_accents i))
           \<and> palette_slot (build_starship_palette parsed) ''color_red''
               = Some (red (in_accents i))
           \<and> palette_slot (build_starship_palette parsed) ''color_yellow''
               = Some (yellow (in_accents i)))"
    using accent_slots[OF assms] by (cases "l < DARK_BACKGROUND_LUMINANCE_THRESHOLD") simp_all
  from 1 2 show ?thesis by blast
qed

theorem orange_blended_before_corrections_witness:
  "valid_parsed \<lparr>cfg_palette = Map.empty, cfg_foreground = None,
      cfg_background = Some ''#fbf1c7'', cfg_selection_background = None\<rparr>
   \<and> palette_inputs \<lparr>cfg_palette = Map.empty, cfg_foreground = None,
      cfg_background = Some ''#fbf1c7'', cfg_selection_background = None\<rparr>
     = Some \<lparr>in_foreground = ''#fbf1c7'', in_background = ''#fbf1c7'',
         in_selection_background = ''#fbf1c7'',
         in_accents = \<lparr>red = ''#cc241d'', green = ''#98971a'', yellow = ''#d79921'',
           blue = ''#458588'', purple = ''#b16286'', aqua = ''#689d6a'', orange = ''#d25e1f''\<rparr>\<rparr>
   \<and> relative_luminance ''#fbf1c7''
     = Some (luminance_of (channel_to_linear 251) (channel_to_linear 241) (channel_to_linear 199))
   \<and> \<not> luminance_of (channel_to_linear 251) (channel_to_linear 241) (channel_to_linear 199)
         < DARK_BACKGROUND_LUMINANCE_THRESHOLD
   \<and> blend ''#cc241d'' ''#d79921'' 0.5 = Some ''#d25e1f''
   \<and> palette_slot (build_starship_palette \<lparr>cfg_palette = Map.empty, cfg_foreground = None,
        cfg_background = Some ''#fbf1c7'', cfg_selection_background = None\<rparr>) ''color_orange''
     = Some ''#d25e1f''"
proof -
  let ?p = "\<lparr>cfg_palette = Map.empty, cfg_foreground = None,
      cfg_background = Some ''#fbf1c7'', cfg_selection_background = None\<rparr>"
  let ?i = "\<lparr>in_foreground = ''#fbf1c7'', in_background = ''#fbf1c7'',
         in_selection_background = ''#fbf1c7'',
         in_accents = \<lparr>red = ''#cc241d'', green = ''#98971a'', yellow = ''#d79921'',
           blue = ''#458588'', purple = ''#b16286'', aqua = ''#689d6a'', orange = ''#d25e1f''\<rparr>\<rparr>"
  have v: "valid_parsed ?p" by (simp add: valid_parsed_def canonical_constants)
  have b1: "blend ''#cc241d'' ''#d79921'' 0.5 = Some ''#d25e1f''" by code_simp
  have b2: "blend ''#fbf1c7'' ''#fbf1c7'' 0.25 = Some ''#fbf1c7''" by code_simp
  have i: "palette_inputs ?p = Some ?i"
    using b1 b2 by (simp add: palette_inputs_def py_or_def Let_def)
  have l: "relative_luminance (in_background ?i)
     = Some (luminance_of (channel_to_linear 251) (channel_to_linear 241) (channel_to_linear 199))"
    by (simp add: relative_luminance_def hex_to_rgb_fbf1c7)
  from orange_blended_before_corrections[OF v i l] luminance_fbf1c7 v i l
  show ?thesis by simp
qed

theorem orange_not_blend_of_corrected:
  "palette_slot (build_starship_palette
      \<lparr>cfg_palette = [1 \<mapsto> ''#ffffff'', 3 \<mapsto> ''#000000''], cfg_foreground = None,
       cfg_background = Some ''#000000'', cfg_selection_background = None\<rparr>) ''color_red''
     = Some ''#c4c4c4''
   \<and> palette_slot (build_starship_palette
      \<lparr>cfg_palette = [1 \<mapsto> ''#ffffff'', 3 \<mapsto> ''#000000''], cfg_foreground = None,
       cfg_background = Some ''#000000'', cfg_selection_background = None\<rparr>) ''color_yellow''
     = Some ''#000000''
   \<and> palette_slot (build_starship_palette
      \<lparr>cfg_palette = [1 \<mapsto> ''#ffffff'', 3 \<mapsto> ''#000000''], cfg_foreground = None,
       cfg_background = Some ''#000000'', cfg_selection_background = None\<rparr>) ''color_orange''
     = Some ''#808080''
   \<and> blend ''#c4c4c4'' ''#000000'' 0.5 = Some ''#626262''"
proof -
  let ?p = "\<lparr>cfg_palette = [1 \<mapsto> ''#ffffff'', 3 \<mapsto> ''#000000''], cfg_foreground = None,
       cfg_background = Some ''#000000'', cfg_selection_background = None\<rparr>"
  have v: "valid_parsed ?p" by (simp add: valid_parsed_def canonical_constants)
  have b1: "blend ''#ffffff'' ''#000000'' 0.5 = Some ''#808080''" by code_simp
  have b2: "blend ''#000000'' ''#fbf1c7'' 0.25 = Some ''#3f3c32''" by code_simp
  have b3: "blend ''#c4c4c4'' ''#000000'' 0.5 = Some ''#626262''" by code_simp
  let ?i = "\<lparr>in_foreground = ''#fbf1c7'', in_background = ''#000000'',
         in_selection_background = ''#3f3c32'',
         in_accents = \<lparr>red = ''#ffffff'', green = ''#98971a'', yellow = ''#000000'',
           blue = ''#458588'', purple = ''#b16286'', aqua = ''#689d6a'', orange = ''#808080''\<rparr>\<rparr>"
  have i: "palette_inputs ?p = Some ?i"
    using b1 b2 by (simp add: palette_inputs_def py_or_def Let_def)
  have l: "relative_luminance (in_background ?i) = Some 0"
    by (simp add: relative_luminance_black)
  have d: "(0::real) < DARK_BACKGROUND_LUMINANCE_THRESHOLD"
    by (simp add: DARK_BACKGROUND_LUMINANCE_THRESHOLD_def)
  from accent_slots(1)[OF v i l d] b3 show ?thesis
    by (simp add: correct_accent_white correct_accent_black correct_accent_808080)
qed

section \<open>The dark pipeline on the red of the fallback palette\<close>

lemma affine_bounds:
  fixes y d :: real
  assumes "klo \<le> k" "k \<le> khi"
  shows "lo \<le> y + d * klo \<Longrightarrow> lo \<le> y + d * khi \<Longrightarrow> lo \<le> y + d * k"
    and "y + d * klo \<le> hi \<Longrightarrow> y + d * khi \<le> hi \<Longrightarrow> y + d * k \<le> hi"
proof -
  have "d * klo \<le> d * k \<or> d * khi \<le> d * k"
    using assms by (cases "0 \<le> d") (simp_all add: mult_left_mono mult_left_mono_neg)
  then show "lo \<le> y + d * klo \<Longrightarrow> lo \<le> y + d * khi \<Longrightarrow> lo \<le> y + d * k" by linarith
  have "d * k \<le> d * klo \<or> d * k \<le> d * khi"
    using assms by (cases "0 \<le> d") (simp_all add: mult_left_mono mult_left_mono_neg)
  then show "y + d * klo \<le> hi \<Longrightarrow> y + d * khi \<le> hi \<Longrightarrow> y + d * k \<le> hi" by linarith
qed

lemma linear_to_channel_interval:
  assumes "lo \<le> v" "v \<le> hi" "0.0031308 < lo" "hi \<le> 1" "0 \<le> n"
    and "(((of_int n - 1 / 2) / 255 + 0.055) / 1.055) ^ 12 < lo ^ 5"
    and "hi ^ 5 < (((of_int n + 1 / 2) / 255 + 0.055) / 1.055) ^ 12"
  shows "linear_to_channel v = n"
proof (rule linear_to_channel_high)
  show "0.0031308 < v" "v \<le> 1" "0 \<le> n" using assms(1-5) by simp_all
  have "lo ^ 5 \<le> v ^ 5" using assms(1,3) by (intro power_mono) simp_all
  with assms(6) show "(((of_int n - 1 / 2) / 255 + 0.055) / 1.055) ^ 12 < v ^ 5" by simp
  have "v ^ 5 \<le> hi ^ 5" using assms(1,2,3) by (intro power_mono) simp_all
  with assms(7) show "v ^ 5 < (((of_int n + 1 / 2) / 255 + 0.055) / 1.055) ^ 12" by simp
qed

lemma channel_to_linear_204:
  "0.60382733 \<le> channel_to_linear 204" "channel_to_linear 204 \<le> 0.60382734"
proof -
  show "0.60382733 \<le> channel_to_linear 204"
    by (rule channel_to_linear_lower) (simp_all add: power_divide)
  show "channel_to_linear 204 \<le> 0.60382734"
    by (rule channel_to_linear_upper) (simp_all add: power_divide)
qed

lemma channel_to_linear_36:
  "0.01764195 \<le> channel_to_linear 36" "channel_to_linear 36 \<le> 0.01764196"
proof -
  show "0.01764195 \<le> channel_to_linear 36"
    by (rule channel_to_linear_lower) (simp_all add: power_divide)
  show "channel_to_linear 36 \<le> 0.01764196"
    by (rule channel_to_linear_upper) (simp_all add: power_divide)
qed

lemma channel_to_linear_29:
  "0.01228648 \<le> channel_to_linear 29" "channel_to_linear 29 \<le> 0.01228649"
proof -
  show "0.01228648 \<le> channel_to_linear 29"
    by (rule channel_to_linear_lower) (simp_all add: power_divide)
  show "channel_to_linear 29 \<le> 0.01228649"
    by (rule channel_to_linear_upper) (simp_all add: power_divide)
qed

lemma channel_to_linear_32:
  "0.01444384 \<le> channel_to_linear 32" "channel_to_linear 32 \<le> 0.01444385"
proof -
  show "0.01444384 \<le> channel_to_linear 32"
    by (rule channel_to_linear_lower) (simp_all add: power_divide)
  show "channel_to_linear 32 \<le> 0.01444385"
    by (rule channel_to_linear_upper) (simp_all add: power_divide)
qed

lemma channel_to_linear_33:
  "0.01520851 \<le> channel_to_linear 33" "channel_to_linear 33 \<le> 0.01520852"
proof -
  show "0.01520851 \<le> channel_to_linear 33"
    by (rule channel_to_linear_lower) (simp_all add: power_divide)
  show "channel_to_linear 33 \<le> 0.01520852"
    by (rule channel_to_linear_upper) (simp_all add: power_divide)
qed

lemma channel_to_linear_210:
  "0.64447968 \<le> channel_to_linear 210" "channel_to_linear 210 \<le> 0.64447969"
proof -
  show "0.64447968 \<le> channel_to_linear 210"
    by (rule channel_to_linear_lower) (simp_all add: power_divide)
  show "channel_to_linear 210 \<le> 0.64447969"
    by (rule channel_to_linear_upper) (simp_all add: power_divide)
qed

lemma channel_to_linear_18:
  "0.00604883 \<le> channel_to_linear 18" "channel_to_linear 18 \<le> 0.00604884"
proof -
  show "0.00604883 \<le> channel_to_linear 18"
    by (rule channel_to_linear_lower) (simp_all add: power_divide)
  show "channel_to_linear 18 \<le> 0.00604884"
    by (rule channel_to_linear_upper) (simp_all add: power_divide)
qed

lemma channel_to_linear_230:
  "0.79129794 \<le> channel_to_linear 230" "channel_to_linear 230 \<le> 0.79129795"
proof -
  show "0.79129794 \<le> channel_to_linear 230"
    by (rule channel_to_linear_lower) (simp_all add: power_divide)
  show "channel_to_linear 230 \<le> 0.79129795"
    by (rule channel_to_linear_upper) (simp_all add: power_divide)
qed

lemma channel_to_linear_21:
  "0.00749903 \<le> channel_to_linear 21" "channel_to_linear 21 \<le> 0.00749904"
proof -
  show "0.00749903 \<le> channel_to_linear 21"
    by (rule channel_to_linear_lower) (simp_all add: power_divide)
  show "channel_to_linear 21 \<le> 0.00749904"
    by (rule channel_to_linear_upper) (simp_all add: power_divide)
qed

lemma hex_to_rgb_pipeline:
  "hex_to_rgb ''#cc241d'' = Some (204, 36, 29)" "hex_to_rgb ''#1d2021'' = Some (29, 32, 33)"
  "hex_to_rgb ''#d21200'' = Some (210, 18, 0)" "hex_to_rgb ''#e61500'' = Some (230, 21, 0)"
  by code_simp+

lemma rgb_to_hex_pipeline:
  "rgb_to_hex (210, 18, 0) = ''#d21200''" "rgb_to_hex (230, 21, 0) = ''#e61500''"
  by code_simp+

lemma boost_cc241d:
  "boost_saturation_preserve_luminance ''#cc241d'' DARK_THEME_SATURATION_BOOST = Some ''#d21200''"
proof -
  define r g b where "r = channel_to_linear 204" and "g = channel_to_linear 36"
    and "b = channel_to_linear 29"
  define y where "y = luminance_of r g b"
  define low where "low = fst (boost_search r g b y 20 (1, 1.35))"
  note rb = channel_to_linear_204[folded r_def]
  note gb = channel_to_linear_36[folded g_def]
  note bb = channel_to_linear_29[folded b_def]
  have yd: "y = 0.2126 * r + 0.7152 * g + 0.0722 * b" by (simp add: y_def luminance_of_def)
  have one: "in_gamut r g b y 1"
    unfolding r_def g_def b_def
    by (intro in_gamut_one channel_to_linear_range) (simp_all add: byte_def)
  have f: "(1::real) \<le> 1.35" by simp
  note res = boost_search_result[OF f one, folded low_def]
  have k0: "in_gamut r g b y 1.094808"
    unfolding in_gamut_def transform_def prod.case yd using rb gb bb by (simp add: algebra_simps)
  have "1.094808 \<le> low + (1.35 - 1) / 2 ^ 20"
    by (rule res(4)[rule_format], rule conjI[OF k0]) simp
  then have lo: "1.0948 \<le> low" by simp
  have "0 \<le> y + (b - y) * low" using res(3) by (simp add: in_gamut_def transform_def)
  moreover have neg: "b - y < 0" unfolding yd using rb gb bb by simp
  moreover have "y + (b - y) * 1.09481 < 0" unfolding yd using rb gb bb by (simp add: algebra_simps)
  ultimately have hi: "low \<le> 1.09481"
  proof -
    assume nn: "0 \<le> y + (b - y) * low" and ng: "b - y < 0"
      and up: "y + (b - y) * 1.09481 < 0"
    show ?thesis
    proof (rule ccontr)
      assume "\<not> low \<le> 1.09481"
      then have "1.09481 < low" by simp
      then have "(b - y) * low < (b - y) * 1.09481"
        using ng by (rule mult_strict_left_mono_neg)
      with nn up show False by linarith
    qed
  qed
  have tr: "0.6476 \<le> y + (r - y) * low" "y + (r - y) * low \<le> 0.6477"
  proof -
    show "0.6476 \<le> y + (r - y) * low"
      by (rule affine_bounds(1)[OF lo hi]; unfold yd; use rb gb bb in \<open>simp add: algebra_simps\<close>)
    show "y + (r - y) * low \<le> 0.6477"
      by (rule affine_bounds(2)[OF lo hi]; unfold yd; use rb gb bb in \<open>simp add: algebra_simps\<close>)
  qed
  have tg: "0.00586 \<le> y + (g - y) * low" "y + (g - y) * low \<le> 0.00587"
  proof -
    show "0.00586 \<le> y + (g - y) * low"
      by (rule affine_bounds(1)[OF lo hi]; unfold yd; use rb gb bb in \<open>simp add: algebra_simps\<close>)
    show "y + (g - y) * low \<le> 0.00587"
      by (rule affine_bounds(2)[OF lo hi]; unfold yd; use rb gb bb in \<open>simp add: algebra_simps\<close>)
  qed
  have tb: "0 \<le> y + (b - y) * low" "y + (b - y) * low \<le> 0.00001"
  proof -
    show "0 \<le> y + (b - y) * low" using res(3) by (simp add: in_gamut_def transform_def)
    show "y + (b - y) * low \<le> 0.00001"
      by (rule affine_bounds(2)[OF lo hi]; unfold yd; use rb gb bb in \<open>simp add: algebra_simps\<close>)
  qed
  have er: "linear_to_channel (y + (r - y) * low) = 210"
    by (rule linear_to_channel_interval[OF tr]) (simp_all add: power_divide)
  have eg: "linear_to_channel (y + (g - y) * low) = 18"
    by (rule linear_to_channel_interval[OF tg]) (simp_all add: power_divide)
  have eb: "linear_to_channel (y + (b - y) * low) = 0"
    by (rule linear_to_channel_low) (use tb in simp_all)
  have "boost_saturation_preserve_luminance ''#cc241d'' 1.35
      = Some (rgb_to_hex (linear_to_channel (y + (r - y) * low),
          linear_to_channel (y + (g - y) * low), linear_to_channel (y + (b - y) * low)))"
    by (simp add: boost_saturation_preserve_luminance_def hex_to_rgb_pipeline Let_def
        transform_def r_def g_def b_def y_def low_def)
  then show ?thesis
    by (simp only: er eg eb rgb_to_hex_pipeline DARK_THEME_SATURATION_BOOST_def)
qed

lemma relative_luminance_1d2021:
  "relative_luminance ''#1d2021''
     = Some (luminance_of (channel_to_linear 29) (channel_to_linear 32) (channel_to_linear 33))"
  by (simp add: relative_luminance_def hex_to_rgb_pipeline)

lemma luminance_1d2021:
  "0.01404039 \<le> luminance_of (channel_to_linear 29) (channel_to_linear 32) (channel_to_linear 33)"
  "luminance_of (channel_to_linear 29) (channel_to_linear 32) (channel_to_linear 33) \<le> 0.01404041"
  using channel_to_linear_29 channel_to_linear_32 channel_to_linear_33
  by (simp_all add: luminance_of_def)

lemma relative_luminance_d21200:
  "relative_luminance ''#d21200''
     = Some (luminance_of (channel_to_linear 210) (channel_to_linear 18) 0)"
  by (simp add: relative_luminance_def hex_to_rgb_pipeline channel_to_linear_0)

lemma luminance_d21200:
  "0.1413425 \<le> luminance_of (channel_to_linear 210) (channel_to_linear 18) 0"
  "luminance_of (channel_to_linear 210) (channel_to_linear 18) 0 \<le> 0.1413426"
  using channel_to_linear_210 channel_to_linear_18
  by (simp_all add: luminance_of_def)

lemma relative_luminance_e61500:
  "relative_luminance ''#e61500''
     = Some (luminance_of (channel_to_linear 230) (channel_to_linear 21) 0)"
  by (simp add: relative_luminance_def hex_to_rgb_pipeline channel_to_linear_0)

lemma luminance_e61500:
  "0.1735932 \<le> luminance_of (channel_to_linear 230) (channel_to_linear 21) 0"
  "luminance_of (channel_to_linear 230) (channel_to_linear 21) 0 \<le> 0.1735933"
  using channel_to_linear_230 channel_to_linear_21
  by (simp_all add: luminance_of_def)

lemma clamp_lum_d21200: "clamp_lum ''#d21200'' = Some ''#d21200''"
  using luminance_d21200(2)
  by (simp add: clamp_lum_def relative_luminance_d21200 DARK_ACCENT_MAX_LUMINANCE_def)

lemma contrast_ratio_brighter:
  assumes "relative_luminance a = Some la" "relative_luminance b = Some lb" "lb \<le> la"
  shows "contrast_ratio a b = Some ((la + 0.05) / (lb + 0.05))"
  using assms by (simp add: contrast_ratio_def max_def min_def)

lemma scale_d21200:
  fixes bg_lum :: real
  assumes "0.01404039 \<le> bg_lum" "bg_lum \<le> 0.01404041"
  shows "scale_luminance ''#d21200'' (3.5 * (bg_lum + 0.05) - 0.05) = Some ''#e61500''"
proof -
  define rl gl where "rl = channel_to_linear 210" and "gl = channel_to_linear 18"
  define cur where "cur = luminance_of rl gl 0"
  define t where "t = 3.5 * (bg_lum + 0.05) - 0.05"
  note rb = channel_to_linear_210[folded rl_def]
  note gb = channel_to_linear_18[folded gl_def]
  note cb = luminance_d21200[folded rl_def gl_def cur_def]
  have tb: "0.17414136 \<le> t" "t \<le> 0.17414144"
    using assms by (simp_all add: t_def algebra_simps)
  have cpos: "0 < cur" using cb(1) by simp
  have nr: "0.794 \<le> rl * (t / cur)" "rl * (t / cur) \<le> 0.7941"
  proof -
    have "0.794 * cur \<le> rl * t"
    proof -
      have "0.794 * cur \<le> 0.794 * 0.1413426" using cb(2) by simp
      also have "\<dots> \<le> 0.64447968 * 0.17414136" by simp
      also have "\<dots> \<le> rl * t" using rb(1) tb(1) by (intro mult_mono) simp_all
      finally show ?thesis .
    qed
    then show "0.794 \<le> rl * (t / cur)" using cpos by (simp add: field_simps)
    have "rl * t \<le> 0.7941 * cur"
    proof -
      have "rl * t \<le> 0.64447969 * 0.17414144"
        using rb tb by (intro mult_mono) simp_all
      also have "\<dots> \<le> 0.7941 * 0.1413425" by simp
      also have "\<dots> \<le> 0.7941 * cur" using cb(1) by simp
      finally show ?thesis .
    qed
    then show "rl * (t / cur) \<le> 0.7941" using cpos by (simp add: field_simps)
  qed
  have ng: "0.00745 \<le> gl * (t / cur)" "gl * (t / cur) \<le> 0.00746"
  proof -
    have "0.00745 * cur \<le> gl * t"
    proof -
      have "0.00745 * cur \<le> 0.00745 * 0.1413426" using cb(2) by simp
      also have "\<dots> \<le> 0.00604883 * 0.17414136" by simp
      also have "\<dots> \<le> gl * t" using gb(1) tb(1) by (intro mult_mono) simp_all
      finally show ?thesis .
    qed
    then show "0.00745 \<le> gl * (t / cur)" using cpos by (simp add: field_simps)
    have "gl * t \<le> 0.00746 * cur"
    proof -
      have "gl * t \<le> 0.00604884 * 0.17414144"
        using gb tb by (intro mult_mono) simp_all
      also have "\<dots> \<le> 0.00746 * 0.1413425" by simp
      also have "\<dots> \<le> 0.00746 * cur" using cb(1) by simp
      finally show ?thesis .
    qed
    then show "gl * (t / cur) \<le> 0.00746" using cpos by (simp add: field_simps)
  qed
  have "rl * (t / cur) \<le> 1" by (rule order_trans[OF nr(2)]) simp
  moreover have "gl * (t / cur) \<le> 1" by (rule order_trans[OF ng(2)]) simp
  moreover have "0 * (t / cur) \<le> 1" by simp
  ultimately have "max (max (rl * (t / cur)) (gl * (t / cur))) (0 * (t / cur)) \<le> 1"
    by (simp only: max.bounded_iff)
  then have nov: "\<not> 1 < max (max (rl * (t / cur)) (gl * (t / cur))) (0 * (t / cur))"
    by linarith
  have sl: "scale_linear rl gl 0 cur t = (rl * (t / cur), gl * (t / cur), 0 * (t / cur))"
    by (rule scale_linear_no_overflow[OF nov])
  have er: "linear_to_channel (rl * (t / cur)) = 230"
    by (rule linear_to_channel_interval[OF nr]) (simp_all add: power_divide)
  have eg: "linear_to_channel (gl * (t / cur)) = 21"
    by (rule linear_to_channel_interval[OF ng]) (simp_all add: power_divide)
  have eb: "linear_to_channel (0 * (t / cur)) = 0"
    by (rule linear_to_channel_low) simp_all
  have nb: "\<not> luminance_of (channel_to_linear 210) (channel_to_linear 18) (channel_to_linear 0)
       < 0.001"
    using cb(1) by (simp add: channel_to_linear_0 cur_def rl_def gl_def)
  have sl': "scale_linear (channel_to_linear 210) (channel_to_linear 18) (channel_to_linear 0)
      (luminance_of (channel_to_linear 210) (channel_to_linear 18) (channel_to_linear 0)) t
      = (rl * (t / cur), gl * (t / cur), 0 * (t / cur))"
    using sl by (simp only: channel_to_linear_0 cur_def rl_def gl_def)
  from scale_luminance_unfold[OF hex_to_rgb_pipeline(3) nb sl']
  have "scale_luminance ''#d21200'' t = Some ''#e61500''"
    by (simp only: er eg eb rgb_to_hex_pipeline)
  then show ?thesis unfolding t_def .
qed

lemma ensure_contrast_d21200:
  "ensure_contrast ''#1d2021''
     (luminance_of (channel_to_linear 29) (channel_to_linear 32) (channel_to_linear 33))
     ''#d21200'' = Some ''#e61500''"
proof -
  define L where "L = luminance_of (channel_to_linear 29) (channel_to_linear 32) (channel_to_linear 33)"
  define la where "la = luminance_of (channel_to_linear 210) (channel_to_linear 18) 0"
  note Lb = luminance_1d2021[folded L_def]
  note lab = luminance_d21200[folded la_def]
  have c: "contrast_ratio ''#d21200'' ''#1d2021'' = Some ((la + 0.05) / (L + 0.05))"
    by (rule contrast_ratio_brighter)
       (use Lb lab in \<open>simp_all add: relative_luminance_d21200 relative_luminance_1d2021 la_def L_def\<close>)
  have lt: "(la + 0.05) / (L + 0.05) < 3.5"
    using Lb lab by (simp add: field_simps)
  have m: "max (3.5 * (L + 0.05) - 0.05) 0.15 = 3.5 * (L + 0.05) - 0.05"
    using Lb by simp
  show ?thesis
    unfolding L_def[symmetric] ensure_contrast_def c Let_def DARK_ACCENT_MIN_CONTRAST_def
    using lt by (simp only: bind.bind_lunit if_True m scale_d21200[OF Lb])
qed

lemma correct_accent_cc241d:
  "correct_accent ''#1d2021''
     (luminance_of (channel_to_linear 29) (channel_to_linear 32) (channel_to_linear 33))
     ''#cc241d'' = Some ''#e61500''"
  by (simp add: correct_accent_def boost_cc241d clamp_lum_d21200 ensure_contrast_d21200)

lemma contrast_e61500:
  "contrast_ratio ''#e61500'' ''#1d2021''
     = Some ((luminance_of (channel_to_linear 230) (channel_to_linear 21) 0 + 0.05)
          / (luminance_of (channel_to_linear 29) (channel_to_linear 32) (channel_to_linear 33) + 0.05))"
  by (rule contrast_ratio_brighter)
     (use luminance_1d2021 luminance_e61500 in
       \<open>simp_all add: relative_luminance_e61500 relative_luminance_1d2021\<close>)

lemma contrast_e61500_low:
  "(luminance_of (channel_to_linear 230) (channel_to_linear 21) 0 + 0.05)
          / (luminance_of (channel_to_linear 29) (channel_to_linear 32) (channel_to_linear 33) + 0.05)
     < 3.492"
  using luminance_1d2021 luminance_e61500 by (simp add: field_simps)

text \<open>
  C3. The specification asks that, for background \<open>#1d2021\<close> and red \<open>#cc241d\<close>, the corrected red
  has relative luminance at most 0.55 and contrast ratio at least 3.5 against the background
  unless the target luminance was floored at 0.15. The code at this input: the background is
  dark, the target \<open>3.5 * (bg_lum + 0.05) - 0.05\<close> is above 0.15 (not floored), the three
  corrections turn \<open>#cc241d\<close> into \<open>#e61500\<close> (boost gives \<open>#d21200\<close>, the clamp leaves it, the
  contrast fix rescales it to the target), its luminance is below 0.55, and its contrast
  ratio against the background is below 3.5.
\<close>

theorem dark_red_misses_minimum_contrast:
  "relative_luminance ''#1d2021''
     = Some (luminance_of (channel_to_linear 29) (channel_to_linear 32) (channel_to_linear 33))
   \<and> luminance_of (channel_to_linear 29) (channel_to_linear 32) (channel_to_linear 33)
       < DARK_BACKGROUND_LUMINANCE_THRESHOLD
   \<and> 0.15 < DARK_ACCENT_MIN_CONTRAST
        * (luminance_of (channel_to_linear 29) (channel_to_linear 32) (channel_to_linear 33) + 0.05)
        - 0.05
   \<and> correct_accent ''#1d2021''
        (luminance_of (channel_to_linear 29) (channel_to_linear 32) (channel_to_linear 33))
        ''#cc241d'' = Some ''#e61500''
   \<and> palette_slot (build_starship_palette \<lparr>cfg_palette = Map.empty, cfg_foreground = None,
        cfg_background = Some ''#1d2021'', cfg_selection_background = None\<rparr>) ''color_red''
       = Some ''#e61500''
   \<and> relative_luminance ''#e61500''
       = Some (luminance_of (channel_to_linear 230) (channel_to_linear 21) 0)
   \<and> luminance_of (channel_to_linear 230) (channel_to_linear 21) 0 \<le> DARK_ACCENT_MAX_LUMINANCE
   \<and> contrast_ratio ''#e61500'' ''#1d2021''
       = Some ((luminance_of (channel_to_linear 230) (channel_to_linear 21) 0 + 0.05)
          / (luminance_of (channel_to_linear 29) (channel_to_linear 32) (channel_to_linear 33)
             + 0.05))
   \<and> (luminance_of (channel_to_linear 230) (channel_to_linear 21) 0 + 0.05)
          / (luminance_of (channel_to_linear 29) (channel_to_linear 32) (channel_to_linear 33)
             + 0.05)
       < DARK_ACCENT_MIN_CONTRAST"
proof -
  let ?L = "luminance_of (channel_to_linear 29) (channel_to_linear 32) (channel_to_linear 33)"
  let ?p = "\<lparr>cfg_palette = Map.empty, cfg_foreground = None,
        cfg_background = Some ''#1d2021'', cfg_selection_background = None\<rparr>"
  let ?i = "\<lparr>in_foreground = ''#fbf1c7'', in_background = ''#1d2021'',
         in_selection_background = ''#54544a'',
         in_accents = \<lparr>red = ''#cc241d'', green = ''#98971a'', yellow = ''#d79921'',
           blue = ''#458588'', purple = ''#b16286'', aqua = ''#689d6a'', orange = ''#d25e1f''\<rparr>\<rparr>"
  have c: "canonical ''#1d2021''" by code_simp
  have v: "valid_parsed ?p" by (simp add: valid_parsed_def c)
  have b1: "blend ''#cc241d'' ''#d79921'' 0.5 = Some ''#d25e1f''" by code_simp
  have b2: "blend ''#1d2021'' ''#fbf1c7'' 0.25 = Some ''#54544a''" by code_simp
  have i: "palette_inputs ?p = Some ?i"
    using b1 b2 by (simp add: palette_inputs_def py_or_def Let_def)
  have l: "relative_luminance (in_background ?i) = Some ?L"
    by (simp add: relative_luminance_1d2021)
  have d: "?L < DARK_BACKGROUND_LUMINANCE_THRESHOLD"
    using luminance_1d2021(2) by (simp add: DARK_BACKGROUND_LUMINANCE_THRESHOLD_def)
  have f: "0.15 < DARK_ACCENT_MIN_CONTRAST * (?L + 0.05) - 0.05"
    using luminance_1d2021(1) by (simp add: DARK_ACCENT_MIN_CONTRAST_def)
  have s: "palette_slot (build_starship_palette ?p) ''color_red'' = Some ''#e61500''"
    using accent_slots(1)[OF v i l d] by (simp add: correct_accent_cc241d)
  have m: "luminance_of (channel_to_linear 230) (channel_to_linear 21) 0
      \<le> DARK_ACCENT_MAX_LUMINANCE"
    using luminance_e61500(2) by (simp add: DARK_ACCENT_MAX_LUMINANCE_def)
  have k: "(luminance_of (channel_to_linear 230) (channel_to_linear 21) 0 + 0.05) / (?L + 0.05)
      < DARK_ACCENT_MIN_CONTRAST"
    unfolding DARK_ACCENT_MIN_CONTRAST_def
    by (rule less_trans[OF contrast_e61500_low]) simp
  show ?thesis
    using relative_luminance_1d2021 d f correct_accent_cc241d s relative_luminance_e61500 m
      contrast_e61500 k
    by (intro conjI)
qed

section \<open>The saturation search on the red of the fallback palette\<close>










end
